theory Spec2Isabelle
  imports Main "HOL-Library.AList"
begin

section \<open>Go values shared by the middleware and the stores\<close>

text \<open>
  Go errors are values. \<open>ErrInvalidId\<close> and \<open>ErrInvalidModified\<close> are the two errors of
  errors.go; \<open>ErrNoCookie\<close> is net/http's error of \<open>req.Cookie\<close>; every other error comes
  out of a library (the codec, the database driver, a custom store) and is carried as
  \<open>LibError\<close> with its message.
\<close>

datatype error = ErrInvalidId | ErrInvalidModified | ErrNoCookie | LibError string

text \<open>
  A Go call either returns or panics (a nil pointer dereference, a key that cannot be
  hashed, a failed type assertion inside a library). A panic unwinds the code that made
  the call, up to the code that recovers it.
\<close>

datatype 'a outcome = Returned 'a | Panicked

text \<open>
  \<open>Options\<close> is the struct of sessions.go; \<open>gOptions\<close> is \<open>Options\<close> of gorilla/sessions,
  whose last field is spelt \<open>HttpOnly\<close>.
\<close>

record Options =
  Path :: string
  Domain :: string
  MaxAge :: int
  Secure :: bool
  HTTPOnly :: bool

record gOptions =
  gPath :: string
  gDomain :: string
  gMaxAge :: int
  gSecure :: bool
  gHttpOnly :: bool

text \<open>
  \<open>sessions.Session\<close> of gorilla/sessions, as far as this repository reads and writes it.
  \<open>Values\<close> is a \<open>map[interface{}]interface{}\<close>: an association list whose keys are
  of type \<open>'k\<close> (the wrapper below takes the keys a Go map can hold, the stores the
  few keys they look at) and whose values are \<open>'v option\<close>, \<open>None\<close> being the nil
  interface value. The map itself is never nil: gorilla's \<open>NewSession\<close> makes it
  and nothing embedded here sets it to nil. \<open>Name\<close> is the private field behind the
  accessor \<open>Name()\<close>.
\<close>

record ('k, 'v) gSession =
  ID :: string
  Values :: "('k \<times> 'v option) list"
  SOptions :: gOptions
  IsNew :: bool
  Name :: string

text \<open>
  The request, as far as the stores look at it: \<open>Cookie\<close> is \<open>req.Cookie\<close> of net/http
  (the cookie's value, or an error when the request has no such cookie).
\<close>

record Request =
  Cookie :: "string \<Rightarrow> error + string"

text \<open>
  A request also carries a \<open>context.Context\<close>. Its keys are compared by type and value:
  \<open>contextKey\<close> is the unexported key type of sessions.go, \<open>foreignKey\<close> stands for a key
  of any other package. \<open>Context r k\<close> is \<open>r.Context().Value(k)\<close>, \<open>None\<close> being nil. A
  value is either a \<open>*session\<close> or something else.
\<close>

datatype ctxKey = contextKey int | foreignKey string

datatype 's ctxValue = SessionPtr 's | OtherValue string

record 's CtxRequest = Request +
  Context :: "ctxKey \<Rightarrow> 's ctxValue option"

definition sessionKey :: ctxKey where
  "sessionKey = contextKey 0"

text \<open>
  The response is observed as the cookies handed to \<open>http.SetCookie\<close>, in order. A cookie
  is \<open>sessions.NewCookie(name, value, options)\<close>.
\<close>

record NewCookie =
  cookieName :: string
  cookieValue :: string
  cookieOptions :: gOptions

type_synonym ResponseWriter = "NewCookie list"

section \<open>sessions.go: the middleware and the session wrapper\<close>

text \<open>
  The wrapper is embedded as sessions.go has it where every method works on the result of
  \<open>Session()\<close> directly and \<open>Clear\<close> is a loop of \<open>Delete\<close>.

  \<open>Store\<close> is the interface a backend implements. Within one request \<open>Get\<close> answers
  from gorilla's per-request registry, so it is a function of the request and the name; it
  may return a nil session (\<open>None\<close>) together with its error. \<open>Save\<close> may set cookies on
  the response and may update the session it is given.
\<close>

record ('k, 'v) Store =
  Get :: "Request \<Rightarrow> string \<Rightarrow> ('k, 'v) gSession option \<times> error option"
  Save :: "Request \<Rightarrow> ResponseWriter \<Rightarrow> ('k, 'v) gSession
            \<Rightarrow> error option \<times> ResponseWriter \<times> ('k, 'v) gSession"

text \<open>
  What a request does is recorded as events: a call of \<open>store.Get\<close>, a call of the
  store's \<open>Save\<close> with the session it was given, a line written by \<open>log.Printf\<close> in
  \<open>check\<close>, and a panic.
\<close>

datatype ('k, 'v) event =
    StoreGet
  | StoreSave "('k, 'v) gSession"
  | LogPrintf error
  | Panic

text \<open>
  \<open>type session struct\<close>, with the events of the request so far. \<open>session\<close> is the
  cached pointer: \<open>None\<close> is nil. The wrapper and gorilla share the pointer, so an update of
  the session's fields is an update of the cached record.
\<close>

record ('k, 'v) session =
  name :: string
  request :: Request
  store :: "('k, 'v) Store"
  session :: "('k, 'v) gSession option"
  written :: bool
  events :: "('k, 'v) event list"

definition check :: "error option \<Rightarrow> ('k, 'v) session \<Rightarrow> ('k, 'v) session" where
  "check err s = (case err of
       None \<Rightarrow> s
     | Some e \<Rightarrow> s\<lparr>events := events s @ [LogPrintf e]\<rparr>)"

definition session_Session ::
  "('k, 'v) session \<Rightarrow> ('k, 'v) gSession option \<times> ('k, 'v) session" where
  "session_Session s = (case session s of
       None \<Rightarrow>
         (let (g, err) = Get (store s) (request s) (name s);
              s1 = s\<lparr>session := g, events := events s @ [StoreGet]\<rparr>
          in (g, check err s1))
     | Some g \<Rightarrow> (Some g, s))"

definition session_Written :: "('k, 'v) session \<Rightarrow> bool" where
  "session_Written s = written s"

text \<open>
  The keys of \<open>Values\<close> are Go values behind \<open>interface{}\<close>, compared by Go's \<open>==\<close>.
  A map can hold a key of a comparable type. \<open>Key x\<close> is such a key that is equal to
  itself (a string, an integer, a boolean, a pointer), \<open>x\<close> and \<open>y\<close> being \<open>==\<close> exactly
  when they are equal; \<open>NaNKey\<close> is one that is equal to nothing, itself included (a
  floating-point NaN, or a struct or array holding one). A key handed to a method may also
  be of a type that cannot be hashed (a slice, a map, a function): \<open>Unhashable\<close>.
\<close>

datatype 'k mapkey = Key 'k | NaNKey

datatype 'k keyarg = Hashable "'k mapkey" | Unhashable

text \<open>
  A Go map on hashable keys. Reading at a key that is absent gives the zero value, here
  the nil interface. A NaN key is never found: reading it gives nil, assigning to it adds
  one more entry, deleting it deletes nothing.
\<close>

fun find_key :: "('k mapkey \<times> 'v option) list \<Rightarrow> 'k mapkey \<Rightarrow> 'v option" where
  "find_key m NaNKey = None"
| "find_key m (Key x) = (case map_of m (Key x) of None \<Rightarrow> None | Some v \<Rightarrow> v)"

fun store_key ::
  "'k mapkey \<Rightarrow> 'v option \<Rightarrow> ('k mapkey \<times> 'v option) list \<Rightarrow> ('k mapkey \<times> 'v option) list" where
  "store_key NaNKey v m = m @ [(NaNKey, v)]"
| "store_key (Key x) v m = AList.update (Key x) v m"

fun remove_key ::
  "'k mapkey \<Rightarrow> ('k mapkey \<times> 'v option) list \<Rightarrow> ('k mapkey \<times> 'v option) list" where
  "remove_key NaNKey m = m"
| "remove_key (Key x) m = AList.delete (Key x) m"

text \<open>
  The three map operations of Go, \<open>m[k]\<close>, \<open>m[k] = v\<close> and \<open>delete(m, k)\<close>, on a key
  behind \<open>interface{}\<close>: each panics at a key that cannot be hashed.
\<close>

fun map_index :: "('k mapkey \<times> 'v option) list \<Rightarrow> 'k keyarg \<Rightarrow> 'v option outcome" where
  "map_index m Unhashable = Panicked"
| "map_index m (Hashable k) = Returned (find_key m k)"

fun map_assign ::
  "('k mapkey \<times> 'v option) list \<Rightarrow> 'k keyarg \<Rightarrow> 'v option
     \<Rightarrow> ('k mapkey \<times> 'v option) list outcome" where
  "map_assign m Unhashable v = Panicked"
| "map_assign m (Hashable k) v = Returned (store_key k v m)"

fun map_delete ::
  "('k mapkey \<times> 'v option) list \<Rightarrow> 'k keyarg \<Rightarrow> ('k mapkey \<times> 'v option) list outcome" where
  "map_delete m Unhashable = Panicked"
| "map_delete m (Hashable k) = Returned (remove_key k m)"

text \<open>
  Every method dereferences the pointer that \<open>Session()\<close> returns; when it is nil the
  method panics there. \<open>Set\<close> and \<open>Delete\<close> mark the session as written after the map was
  changed.
\<close>

definition session_Get ::
  "'k keyarg \<Rightarrow> ('k mapkey, 'v) session \<Rightarrow> 'v option outcome \<times> ('k mapkey, 'v) session" where
  "session_Get key s = (case session_Session s of
       (None, s1) \<Rightarrow> (Panicked, s1)
     | (Some g, s1) \<Rightarrow> (map_index (Values g) key, s1))"

definition session_Set ::
  "'k keyarg \<Rightarrow> 'v option \<Rightarrow> ('k mapkey, 'v) session
     \<Rightarrow> unit outcome \<times> ('k mapkey, 'v) session" where
  "session_Set key val s = (case session_Session s of
       (None, s1) \<Rightarrow> (Panicked, s1)
     | (Some g, s1) \<Rightarrow> (case map_assign (Values g) key val of
           Panicked \<Rightarrow> (Panicked, s1)
         | Returned m \<Rightarrow>
             (Returned (), s1\<lparr>session := Some (g\<lparr>Values := m\<rparr>), written := True\<rparr>)))"

definition session_Delete ::
  "'k keyarg \<Rightarrow> ('k mapkey, 'v) session \<Rightarrow> unit outcome \<times> ('k mapkey, 'v) session" where
  "session_Delete key s = (case session_Session s of
       (None, s1) \<Rightarrow> (Panicked, s1)
     | (Some g, s1) \<Rightarrow> (case map_delete (Values g) key of
           Panicked \<Rightarrow> (Panicked, s1)
         | Returned m \<Rightarrow>
             (Returned (), s1\<lparr>session := Some (g\<lparr>Values := m\<rparr>), written := True\<rparr>)))"

text \<open>
  \<open>Clear\<close> ranges over the entries the map has when the loop starts and calls \<open>Delete\<close>
  on the key of each; deleting the current key does not disturb a Go range loop.
\<close>

fun Clear_range ::
  "'k mapkey list \<Rightarrow> ('k mapkey, 'v) session \<Rightarrow> unit outcome \<times> ('k mapkey, 'v) session" where
  "Clear_range [] s = (Returned (), s)"
| "Clear_range (key # keys) s = (case session_Delete (Hashable key) s of
       (Panicked, s1) \<Rightarrow> (Panicked, s1)
     | (Returned u, s1) \<Rightarrow> Clear_range keys s1)"

definition session_Clear ::
  "('k mapkey, 'v) session \<Rightarrow> unit outcome \<times> ('k mapkey, 'v) session" where
  "session_Clear s = (case session_Session s of
       (None, s1) \<Rightarrow> (Panicked, s1)
     | (Some g, s1) \<Rightarrow> Clear_range (map fst (Values g)) s1)"

text \<open>
  \<open>AddFlash\<close> and \<open>Flashes\<close> of gorilla/sessions are library code: they are parameters.
  Each gets the session and returns it as it left it, with its result or a panic.
\<close>

record ('k, 'v) gorilla =
  gAddFlash :: "'v option \<Rightarrow> string list \<Rightarrow> ('k, 'v) gSession
                 \<Rightarrow> unit outcome \<times> ('k, 'v) gSession"
  gFlashes :: "string list \<Rightarrow> ('k, 'v) gSession
                 \<Rightarrow> 'v option list outcome \<times> ('k, 'v) gSession"

definition session_AddFlash ::
  "('k, 'v) gorilla \<Rightarrow> 'v option \<Rightarrow> string list \<Rightarrow> ('k, 'v) session
     \<Rightarrow> unit outcome \<times> ('k, 'v) session" where
  "session_AddFlash G val vars s = (case session_Session s of
       (None, s1) \<Rightarrow> (Panicked, s1)
     | (Some g, s1) \<Rightarrow> (case gAddFlash G val vars g of
           (Panicked, g1) \<Rightarrow> (Panicked, s1\<lparr>session := Some g1\<rparr>)
         | (Returned u, g1) \<Rightarrow> (Returned (), s1\<lparr>session := Some g1, written := True\<rparr>)))"

text \<open>\<open>Flashes\<close> sets \<open>written\<close> first and loads the session afterwards.\<close>

definition session_Flashes ::
  "('k, 'v) gorilla \<Rightarrow> string list \<Rightarrow> ('k, 'v) session
     \<Rightarrow> 'v option list outcome \<times> ('k, 'v) session" where
  "session_Flashes G vars s = (case session_Session (s\<lparr>written := True\<rparr>) of
       (None, s1) \<Rightarrow> (Panicked, s1)
     | (Some g, s1) \<Rightarrow> (case gFlashes G vars g of
           (r, g1) \<Rightarrow> (r, s1\<lparr>session := Some g1\<rparr>)))"

definition session_Options ::
  "Options \<Rightarrow> ('k, 'v) session \<Rightarrow> unit outcome \<times> ('k, 'v) session" where
  "session_Options options s = (case session_Session s of
       (None, s1) \<Rightarrow> (Panicked, s1)
     | (Some g, s1) \<Rightarrow>
         (Returned (),
          s1\<lparr>session := Some (g\<lparr>SOptions :=
               \<lparr>gPath = Path options, gDomain = Domain options, gMaxAge = MaxAge options,
                gSecure = Secure options, gHttpOnly = HTTPOnly options\<rparr>\<rparr>)\<rparr>))"

definition GetSession :: "'s CtxRequest \<Rightarrow> 's option" where
  "GetSession req = (case Context req sessionKey of
       Some (SessionPtr s) \<Rightarrow> Some s
     | _ \<Rightarrow> None)"

text \<open>
  The function that \<open>Sessions\<close> registers with \<open>rw.Before\<close>. gorilla's
  \<open>Session.Save(r, w)\<close> hands the session to the store it came from, which is the store
  of the wrapper. The request it passes on is the one with the new context; its cookies
  are those of the request the wrapper holds.
\<close>

definition Before ::
  "('k, 'v) session \<Rightarrow> ResponseWriter
     \<Rightarrow> unit outcome \<times> ('k, 'v) session \<times> ResponseWriter" where
  "Before s res =
     (if session_Written s then
        (case session_Session s of
           (None, s1) \<Rightarrow> (Panicked, s1, res)
         | (Some g, s1) \<Rightarrow>
             (let (err, res1, g1) = Save (store s1) (request s1) res g;
                  s2 = s1\<lparr>session := Some g1, events := events s1 @ [StoreSave g]\<rparr>
              in (Returned (), check err s2, res1)))
      else (Returned (), s, res))"

text \<open>
  The calls a handler can make on the session.
\<close>

datatype ('k, 'v) call =
    CallGet "'k keyarg"
  | CallSet "'k keyarg" "'v option"
  | CallDelete "'k keyarg"
  | CallClear
  | CallAddFlash "'v option" "string list"
  | CallFlashes "string list"
  | CallOptions Options

fun unit_of :: "'a outcome \<times> 's \<Rightarrow> unit outcome \<times> 's" where
  "unit_of (Returned x, s) = (Returned (), s)"
| "unit_of (Panicked, s) = (Panicked, s)"

fun do_call ::
  "('k mapkey, 'v) gorilla \<Rightarrow> ('k, 'v) call \<Rightarrow> ('k mapkey, 'v) session
     \<Rightarrow> unit outcome \<times> ('k mapkey, 'v) session" where
  "do_call G (CallGet key) s = unit_of (session_Get key s)"
| "do_call G (CallSet key val) s = session_Set key val s"
| "do_call G (CallDelete key) s = session_Delete key s"
| "do_call G CallClear s = session_Clear s"
| "do_call G (CallAddFlash val vars) s = session_AddFlash G val vars s"
| "do_call G (CallFlashes vars) s = unit_of (session_Flashes G vars s)"
| "do_call G (CallOptions options) s = session_Options options s"

text \<open>
  \<open>Sessions\<close> only registers \<open>Before\<close> and calls the next handler; it is negroni's
  \<open>ResponseWriter\<close> that runs the registered function, each time its \<open>WriteHeader\<close>
  goes through to the hooks. So what happens to the wrapper from then on is a sequence of
  steps of two kinds, in any order and number: a call on the session, and a write that
  runs the hook. The sequence may have no write at all, a write before a call, or
  several writes. A step that panics is recorded; the steps after it are those of the
  code that recovered the panic: the handler itself, or a middleware such as negroni's
  \<open>Recovery\<close>, whose write of the status 500 runs the hook once more.
\<close>

datatype ('k, 'v) step = Call "('k, 'v) call" | WriteHeader

definition panicked :: "unit outcome \<Rightarrow> ('k, 'v) session \<Rightarrow> ('k, 'v) session" where
  "panicked out s = (case out of
       Returned u \<Rightarrow> s
     | Panicked \<Rightarrow> s\<lparr>events := events s @ [Panic]\<rparr>)"

fun steps ::
  "('k mapkey, 'v) gorilla \<Rightarrow> ('k, 'v) step list \<Rightarrow> ('k mapkey, 'v) session \<Rightarrow> ResponseWriter
     \<Rightarrow> ('k mapkey, 'v) session \<times> ResponseWriter" where
  "steps G [] s rw = (s, rw)"
| "steps G (Call c # rest) s rw = (case do_call G c s of
       (out, s1) \<Rightarrow> steps G rest (panicked out s1) rw)"
| "steps G (WriteHeader # rest) s rw = (case Before s rw of
       (out, s1, rw1) \<Rightarrow> steps G rest (panicked out s1) rw1)"

text \<open>
  The middleware gets its \<open>http.ResponseWriter\<close> with its dynamic type: the assertion
  \<open>res.(negroni.ResponseWriter)\<close> panics on any other writer, before the hook is
  registered and before the next handler is called.
\<close>

datatype httpResponseWriter =
    NegroniResponseWriter ResponseWriter
  | PlainResponseWriter ResponseWriter


text \<open>
  The middleware: a fresh wrapper goes into the request's context under \<open>sessionKey\<close>,
  the hook is registered, and the next handler is called with the new request, where it
  finds the wrapper with \<open>GetSession\<close>. \<open>next\<close> is the sequence of steps that follow.
\<close>

definition newSession :: "string \<Rightarrow> Request \<Rightarrow> ('k, 'v) Store \<Rightarrow> ('k, 'v) session" where
  "newSession nm r st =
     \<lparr>name = nm, request = r, store = st, session = None, written = False, events = []\<rparr>"

definition Sessions ::
  "('k mapkey, 'v) gorilla \<Rightarrow> string \<Rightarrow> ('k mapkey, 'v) Store \<Rightarrow> httpResponseWriter
     \<Rightarrow> ('k mapkey, 'v) session CtxRequest \<Rightarrow> ('k, 'v) step list
     \<Rightarrow> ('k mapkey, 'v) session \<times> ResponseWriter" where
  "Sessions G nm st res r next =
     (let s = newSession nm (Request.truncate r) st;
          r1 = r\<lparr>Context := (Context r)(sessionKey \<mapsto> SessionPtr s)\<rparr>
      in case res of
           PlainResponseWriter w \<Rightarrow> (panicked Panicked s, w)
         | NegroniResponseWriter rw \<Rightarrow>
             (case GetSession r1 of
                None \<Rightarrow> (panicked Panicked s, rw)
              | Some s0 \<Rightarrow> steps G next s0 rw))"

text \<open>
  The sessions a request handed to the store's \<open>Save\<close>, read off its events.
\<close>

fun saved :: "('k, 'v) event list \<Rightarrow> ('k, 'v) gSession list" where
  "saved [] = []"
| "saved (StoreSave g # es) = g # saved es"
| "saved (e # es) = saved es"

text \<open>
  Which calls set \<open>written\<close> when they return: \<open>Set\<close>, \<open>Delete\<close>, \<open>AddFlash\<close> and
  \<open>Flashes\<close> do; \<open>Clear\<close> does through \<open>Delete\<close>, so only when the session holds a value
  at that moment; \<open>Get\<close> and \<open>Options\<close> do not.
\<close>

fun marks :: "('k, 'v) call \<Rightarrow> ('k mapkey, 'v) session \<Rightarrow> bool" where
  "marks (CallGet key) s = False"
| "marks (CallSet key val) s = True"
| "marks (CallDelete key) s = True"
| "marks CallClear s = (case fst (session_Session s) of
       None \<Rightarrow> False
     | Some g \<Rightarrow> Values g \<noteq> [])"
| "marks (CallAddFlash val vars) s = True"
| "marks (CallFlashes vars) s = True"
| "marks (CallOptions options) s = False"

text \<open>
  Which calls set \<open>written\<close>, whether they return or panic: \<open>Flashes\<close> sets it before
  anything else, the others set it last and so only when they return.
\<close>

fun sets_written ::
  "('k mapkey, 'v) gorilla \<Rightarrow> ('k, 'v) call \<Rightarrow> ('k mapkey, 'v) session \<Rightarrow> bool" where
  "sets_written G (CallFlashes vars) s = True"
| "sets_written G c s = (fst (do_call G c s) = Returned () \<and> marks c s)"

text \<open>
  The reading that counts every call of \<open>Set\<close>, \<open>Delete\<close>, \<open>Clear\<close>, \<open>AddFlash\<close> or
  \<open>Flashes\<close> as a mutation, whatever the session holds.
\<close>

fun mutation_by_name :: "('k, 'v) call \<Rightarrow> bool" where
  "mutation_by_name (CallGet key) = False"
| "mutation_by_name (CallOptions options) = False"
| "mutation_by_name c = True"

section \<open>cookie_token.go: the session token in a cookie\<close>

definition GetToken :: "Request \<Rightarrow> string \<Rightarrow> error + string" where
  "GetToken req nm = (case Cookie req nm of
       Inl err \<Rightarrow> Inl err
     | Inr cook \<Rightarrow> Inr cook)"

definition SetToken ::
  "ResponseWriter \<Rightarrow> string \<Rightarrow> string \<Rightarrow> gOptions \<Rightarrow> ResponseWriter" where
  "SetToken rw nm val options =
     rw @ [\<lparr>cookieName = nm, cookieValue = val, cookieOptions = options\<rparr>]"

section \<open>mongostore and dalstore: sessions kept in a database\<close>

text \<open>
  The values a database-backed session holds are Go values behind \<open>interface{}\<close>; the
  stores look at one key, the string \<open>"modified"\<close>, and ask whether its value is a
  \<open>time.Time\<close>.
\<close>

type_synonym Time = nat

datatype gokey = KString string | KInt int | KBool bool

datatype goval = VString string | VInt int | VBool bool | VTime Time

type_synonym dbSession = "(gokey, goval) gSession"

text \<open>
  \<open>mongoSession\<close> is the stored document; \<open>dalSession\<close> has the same three fields. An
  \<open>ObjectId\<close> is a string of raw bytes, the empty string being the zero value.
\<close>

type_synonym ObjectId = string

record mongoSession =
  docID :: ObjectId
  Data :: string
  Modified :: Time

text \<open>
  What the libraries answer during a call: \<open>bson.IsObjectIdHex\<close>, \<open>bson.ObjectIdHex\<close>
  and \<open>bson.NewObjectId().Hex()\<close> (\<open>dal\<close> has the same three), and \<open>time.Now()\<close>.
\<close>

record env =
  IsObjectIdHex :: "string \<Rightarrow> bool"
  ObjectIdHex :: "string \<Rightarrow> ObjectId"
  NewObjectId_Hex :: string
  Now :: Time

text \<open>
  \<open>securecookie.DecodeMulti\<close> and \<open>EncodeMulti\<close> with the store's codecs, at the two
  types the stores use them: the session id and the values map. Decoding gets the
  destination as it is and returns it as it leaves it.
\<close>

record Codecs =
  DecodeMulti_ID :: "string \<Rightarrow> string \<Rightarrow> string \<Rightarrow> error option \<times> string"
  EncodeMulti_ID :: "string \<Rightarrow> string \<Rightarrow> error + string"
  DecodeMulti_Values :: "string \<Rightarrow> string \<Rightarrow> (gokey \<times> goval option) list
                          \<Rightarrow> error option \<times> (gokey \<times> goval option) list"
  EncodeMulti_Values :: "string \<Rightarrow> (gokey \<times> goval option) list \<Rightarrow> error + string"

text \<open>
  The database behind the handle (\<open>mgo.Session\<close>, \<open>dal.Connection\<close>): what the driver
  answers to a call on collection \<open>C(collection)\<close> of \<open>DB(database)\<close>. Every call made
  is recorded, in order.
\<close>

record driver =
  FindId_One :: "string \<Rightarrow> string \<Rightarrow> ObjectId \<Rightarrow> mongoSession \<Rightarrow> error option \<times> mongoSession"
  UpsertId :: "string \<Rightarrow> string \<Rightarrow> ObjectId \<Rightarrow> mongoSession \<Rightarrow> error option"
  RemoveId :: "string \<Rightarrow> string \<Rightarrow> ObjectId \<Rightarrow> error option"

datatype dbcall =
    CallFindId string string ObjectId
  | CallUpsertId string string ObjectId mongoSession
  | CallRemoveId string string ObjectId

text \<open>
  \<open>type mongoStore struct\<close>; \<open>dalStore\<close> has the same fields, its handle being called
  \<open>connection\<close>. The field \<open>Token\<close> always holds the \<open>cookieToken\<close> of cookie_token.go
  (the struct is unexported and \<open>New\<close> is its only constructor), so \<open>GetToken\<close> and
  \<open>SetToken\<close> above are called directly.
\<close>

record mongoStore =
  Codecs :: Codecs
  handle :: driver
  database :: string
  collection :: string
  options :: gOptions

type_synonym dalStore = mongoStore

definition mongoStore_load ::
  "env \<Rightarrow> mongoStore \<Rightarrow> dbSession \<Rightarrow> dbcall list
     \<Rightarrow> (bool \<times> error option) \<times> dbSession \<times> dbcall list" where
  "mongoStore_load E m g tr =
     (if \<not> IsObjectIdHex E (ID g) then ((False, Some ErrInvalidId), g, tr)
      else
        (let oid = ObjectIdHex E (ID g);
             (err, s) = FindId_One (handle m) (database m) (collection m) oid
                          \<lparr>docID = [], Data = [], Modified = 0\<rparr>;
             tr1 = tr @ [CallFindId (database m) (collection m) oid]
         in case err of
              Some e \<Rightarrow> ((False, Some e), g, tr1)
            | None \<Rightarrow>
                (case DecodeMulti_Values (Codecs m) (Name g) (Data s) (Values g) of
                   (Some e, vs) \<Rightarrow> ((False, Some e), g\<lparr>Values := vs\<rparr>, tr1)
                 | (None, vs) \<Rightarrow> ((True, None), g\<lparr>Values := vs\<rparr>, tr1))))"

definition modified_of :: "env \<Rightarrow> dbSession \<Rightarrow> error + Time" where
  "modified_of E g = (case map_of (Values g) (KString ''modified'') of
       Some (Some (VTime t)) \<Rightarrow> Inr t
     | Some other \<Rightarrow> Inl ErrInvalidModified
     | None \<Rightarrow> Inr (Now E))"

definition mongoStore_save ::
  "env \<Rightarrow> mongoStore \<Rightarrow> dbSession \<Rightarrow> dbcall list \<Rightarrow> error option \<times> dbcall list" where
  "mongoStore_save E m g tr =
     (if \<not> IsObjectIdHex E (ID g) then (Some ErrInvalidId, tr)
      else case modified_of E g of
          Inl e \<Rightarrow> (Some e, tr)
        | Inr modified \<Rightarrow>
            (case EncodeMulti_Values (Codecs m) (Name g) (Values g) of
               Inl e \<Rightarrow> (Some e, tr)
             | Inr encoded \<Rightarrow>
                 (let s = \<lparr>docID = [], Data = encoded, Modified = modified\<rparr>;
                      oid = ObjectIdHex E (ID g)
                  in (UpsertId (handle m) (database m) (collection m) oid s,
                      tr @ [CallUpsertId (database m) (collection m) oid s]))))"

definition mongoStore_delete ::
  "env \<Rightarrow> mongoStore \<Rightarrow> dbSession \<Rightarrow> dbcall list \<Rightarrow> error option \<times> dbcall list" where
  "mongoStore_delete E m g tr =
     (if \<not> IsObjectIdHex E (ID g) then (Some ErrInvalidId, tr)
      else
        (let oid = ObjectIdHex E (ID g)
         in (RemoveId (handle m) (database m) (collection m) oid,
             tr @ [CallRemoveId (database m) (collection m) oid])))"

text \<open>
  \<open>New\<close>: the error of \<open>load\<close> is bound to a variable of the inner block only, so the
  error returned is the one of decoding the cookie.
\<close>

definition mongoStore_New ::
  "env \<Rightarrow> mongoStore \<Rightarrow> Request \<Rightarrow> string \<Rightarrow> dbcall list
     \<Rightarrow> dbSession \<times> error option \<times> dbcall list" where
  "mongoStore_New E m r nm tr =
     (let session0 = \<lparr>ID = [], Values = [],
                      SOptions = \<lparr>gPath = gPath (options m), gDomain = [],
                                  gMaxAge = gMaxAge (options m), gSecure = False,
                                  gHttpOnly = False\<rparr>,
                      IsNew = True, Name = nm\<rparr>
      in case GetToken r nm of
           Inl errToken \<Rightarrow> (session0, None, tr)
         | Inr cook \<Rightarrow>
             (case DecodeMulti_ID (Codecs m) nm cook (ID session0) of
                (Some err, id1) \<Rightarrow> (session0\<lparr>ID := id1\<rparr>, Some err, tr)
              | (None, id1) \<Rightarrow>
                  (case mongoStore_load E m (session0\<lparr>ID := id1\<rparr>) tr of
                     ((ok, err1), g1, tr1) \<Rightarrow>
                       (g1\<lparr>IsNew := \<not> (err1 = None \<and> ok)\<rparr>, None, tr1))))"

definition mongoStore_Save ::
  "env \<Rightarrow> mongoStore \<Rightarrow> Request \<Rightarrow> ResponseWriter \<Rightarrow> dbSession \<Rightarrow> dbcall list
     \<Rightarrow> error option \<times> ResponseWriter \<times> dbSession \<times> dbcall list" where
  "mongoStore_Save E m r w g tr =
     (if gMaxAge (SOptions g) < 0 then
        (case mongoStore_delete E m g tr of
           (Some err, tr1) \<Rightarrow> (Some err, w, g, tr1)
         | (None, tr1) \<Rightarrow> (None, SetToken w (Name g) [] (SOptions g), g, tr1))
      else
        (let g1 = (if ID g = [] then g\<lparr>ID := NewObjectId_Hex E\<rparr> else g)
         in case mongoStore_save E m g1 tr of
              (Some err, tr1) \<Rightarrow> (Some err, w, g1, tr1)
            | (None, tr1) \<Rightarrow>
                (case EncodeMulti_ID (Codecs m) (Name g1) (ID g1) of
                   Inl err \<Rightarrow> (Some err, w, g1, tr1)
                 | Inr encoded \<Rightarrow>
                     (None, SetToken w (Name g1) encoded (SOptions g1), g1, tr1))))"

text \<open>
  dalstore is written after mongostore. \<open>New\<close> copies every field of the store's
  options, \<open>save\<close> clones the connection before it looks at \<open>"modified"\<close> and stores the
  id in the document as well, and \<open>Save\<close> ends with \<open>return err\<close>, where \<open>err\<close> is nil.
\<close>

definition dalStore_load ::
  "env \<Rightarrow> dalStore \<Rightarrow> dbSession \<Rightarrow> dbcall list
     \<Rightarrow> (bool \<times> error option) \<times> dbSession \<times> dbcall list" where
  "dalStore_load E d g tr =
     (if \<not> IsObjectIdHex E (ID g) then ((False, Some ErrInvalidId), g, tr)
      else
        (let oid = ObjectIdHex E (ID g);
             (err, s) = FindId_One (handle d) (database d) (collection d) oid
                          \<lparr>docID = [], Data = [], Modified = 0\<rparr>;
             tr1 = tr @ [CallFindId (database d) (collection d) oid]
         in case err of
              Some e \<Rightarrow> ((False, Some e), g, tr1)
            | None \<Rightarrow>
                (case DecodeMulti_Values (Codecs d) (Name g) (Data s) (Values g) of
                   (Some e, vs) \<Rightarrow> ((False, Some e), g\<lparr>Values := vs\<rparr>, tr1)
                 | (None, vs) \<Rightarrow> ((True, None), g\<lparr>Values := vs\<rparr>, tr1))))"

definition dalStore_save ::
  "env \<Rightarrow> dalStore \<Rightarrow> dbSession \<Rightarrow> dbcall list \<Rightarrow> error option \<times> dbcall list" where
  "dalStore_save E d g tr =
     (if \<not> IsObjectIdHex E (ID g) then (Some ErrInvalidId, tr)
      else case modified_of E g of
          Inl e \<Rightarrow> (Some e, tr)
        | Inr modified \<Rightarrow>
            (case EncodeMulti_Values (Codecs d) (Name g) (Values g) of
               Inl e \<Rightarrow> (Some e, tr)
             | Inr encoded \<Rightarrow>
                 (let oid = ObjectIdHex E (ID g);
                      s = \<lparr>docID = oid, Data = encoded, Modified = modified\<rparr>
                  in (UpsertId (handle d) (database d) (collection d) oid s,
                      tr @ [CallUpsertId (database d) (collection d) oid s]))))"

definition dalStore_delete ::
  "env \<Rightarrow> dalStore \<Rightarrow> dbSession \<Rightarrow> dbcall list \<Rightarrow> error option \<times> dbcall list" where
  "dalStore_delete E d g tr =
     (if \<not> IsObjectIdHex E (ID g) then (Some ErrInvalidId, tr)
      else
        (let oid = ObjectIdHex E (ID g)
         in (RemoveId (handle d) (database d) (collection d) oid,
             tr @ [CallRemoveId (database d) (collection d) oid])))"

definition dalStore_New ::
  "env \<Rightarrow> dalStore \<Rightarrow> Request \<Rightarrow> string \<Rightarrow> dbcall list
     \<Rightarrow> dbSession \<times> error option \<times> dbcall list" where
  "dalStore_New E d r nm tr =
     (let session0 = \<lparr>ID = [], Values = [], SOptions = options d,
                      IsNew = True, Name = nm\<rparr>
      in case GetToken r nm of
           Inl errToken \<Rightarrow> (session0, None, tr)
         | Inr cook \<Rightarrow>
             (case DecodeMulti_ID (Codecs d) nm cook (ID session0) of
                (Some err, id1) \<Rightarrow> (session0\<lparr>ID := id1\<rparr>, Some err, tr)
              | (None, id1) \<Rightarrow>
                  (case dalStore_load E d (session0\<lparr>ID := id1\<rparr>) tr of
                     ((ok, err1), g1, tr1) \<Rightarrow>
                       (g1\<lparr>IsNew := \<not> (err1 = None \<and> ok)\<rparr>, None, tr1))))"

definition dalStore_Save ::
  "env \<Rightarrow> dalStore \<Rightarrow> Request \<Rightarrow> ResponseWriter \<Rightarrow> dbSession \<Rightarrow> dbcall list
     \<Rightarrow> error option \<times> ResponseWriter \<times> dbSession \<times> dbcall list" where
  "dalStore_Save E d r w g tr =
     (if gMaxAge (SOptions g) < 0 then
        (case dalStore_delete E d g tr of
           (Some err, tr1) \<Rightarrow> (Some err, w, g, tr1)
         | (None, tr1) \<Rightarrow> (None, SetToken w (Name g) [] (SOptions g), g, tr1))
      else
        (let g1 = (if ID g = [] then g\<lparr>ID := NewObjectId_Hex E\<rparr> else g)
         in case dalStore_save E d g1 tr of
              (Some err, tr1) \<Rightarrow> (Some err, w, g1, tr1)
            | (None, tr1) \<Rightarrow>
                (case EncodeMulti_ID (Codecs d) (Name g1) (ID g1) of
                   Inl err \<Rightarrow> (Some err, w, g1, tr1)
                 | Inr encoded \<Rightarrow>
                     (None, SetToken w (Name g1) encoded (SOptions g1), g1, tr1))))"

section \<open>Concrete libraries, stores and requests\<close>

text \<open>
  Stand-ins for the libraries, small enough to compute with: object ids are 24 hexadecimal
  digits, the codec prefixes an id with \<open>id:\<close>, and the driver finds one stored document
  whatever the id.
\<close>

definition example_env :: env where
  "example_env =
     \<lparr>IsObjectIdHex = (\<lambda>s. length s = 24 \<and> list_all (\<lambda>c. c \<in> set ''0123456789abcdefABCDEF'') s),
      ObjectIdHex = (\<lambda>s. s),
      NewObjectId_Hex = ''507f1f77bcf86cd799439011'',
      Now = 1000\<rparr>"

definition example_codecs :: Codecs where
  "example_codecs =
     \<lparr>DecodeMulti_ID = (\<lambda>nm v dst.
         if take 3 v = ''id:'' then (None, drop 3 v)
         else (Some (LibError ''securecookie: the value is not valid''), dst)),
      EncodeMulti_ID = (\<lambda>nm v. Inr (''id:'' @ v)),
      DecodeMulti_Values = (\<lambda>nm v dst. (None, [(KString ''hello'', Some (VString ''world''))])),
      EncodeMulti_Values = (\<lambda>nm vs. Inr ''blob'')\<rparr>"

definition example_driver :: driver where
  "example_driver =
     \<lparr>FindId_One = (\<lambda>db c oid dst. (None, \<lparr>docID = oid, Data = ''blob'', Modified = 7\<rparr>)),
      UpsertId = (\<lambda>db c oid s. None),
      RemoveId = (\<lambda>db c oid. None)\<rparr>"

definition failing_driver :: driver where
  "failing_driver =
     \<lparr>FindId_One = (\<lambda>db c oid dst. (Some (LibError ''not found''), dst)),
      UpsertId = (\<lambda>db c oid s. Some (LibError ''connection refused'')),
      RemoveId = (\<lambda>db c oid. Some (LibError ''not found''))\<rparr>"

definition example_options :: gOptions where
  "example_options =
     \<lparr>gPath = ''/'', gDomain = [], gMaxAge = 3600, gSecure = False, gHttpOnly = False\<rparr>"

definition example_mongoStore :: mongoStore where
  "example_mongoStore =
     \<lparr>Codecs = example_codecs, handle = example_driver, database = ''app'',
      collection = ''sessions'', options = example_options\<rparr>"

definition failing_mongoStore :: mongoStore where
  "failing_mongoStore = example_mongoStore\<lparr>handle := failing_driver\<rparr>"

definition example_request :: Request where
  "example_request =
     \<lparr>Cookie = (\<lambda>n. if n = ''my_session'' then Inr ''id:507f1f77bcf86cd799439011''
                      else Inl ErrNoCookie)\<rparr>"

definition example_dbSession :: dbSession where
  "example_dbSession =
     \<lparr>ID = ''507f1f77bcf86cd799439011'',
      Values = [(KString ''hello'', Some (VString ''world''))],
      SOptions = example_options, IsNew = False, Name = ''my_session''\<rparr>"

text \<open>
  A session that was never stored (its id is empty) and is to be deleted
  (\<open>MaxAge\<close> is negative).
\<close>

definition expired_new_dbSession :: dbSession where
  "expired_new_dbSession =
     \<lparr>ID = [], Values = [], SOptions = example_options\<lparr>gMaxAge := - 1\<rparr>,
      IsNew = True, Name = ''my_session''\<rparr>"

text \<open>
  For the middleware: a store whose \<open>Get\<close> gives a new, empty session and whose \<open>Save\<close>
  sets one cookie, a gorilla whose flashes live under \<open>_flash\<close>, and a request with
  nothing in its context.
\<close>

definition example_store :: "(string mapkey, string) Store" where
  "example_store =
     \<lparr>Get = (\<lambda>r nm. (Some \<lparr>ID = [], Values = [], SOptions = example_options,
                              IsNew = True, Name = nm\<rparr>, None)),
      Save = (\<lambda>r w g. (None, SetToken w (Name g) ''payload'' (SOptions g), g))\<rparr>"

text \<open>A store that has no session to give: its \<open>Get\<close> returns nil and an error.\<close>

definition nil_store :: "(string mapkey, string) Store" where
  "nil_store =
     \<lparr>Get = (\<lambda>r nm. (None, Some (LibError ''sessions: invalid character in cookie name''))),
      Save = (\<lambda>r w g. (None, w, g))\<rparr>"

definition example_gorilla :: "(string mapkey, string) gorilla" where
  "example_gorilla =
     \<lparr>gAddFlash = (\<lambda>v vars g.
         (Returned (), g\<lparr>Values := store_key (Key ''_flash'') v (Values g)\<rparr>)),
      gFlashes = (\<lambda>vars g.
         (Returned [find_key (Values g) (Key ''_flash'')],
          g\<lparr>Values := remove_key (Key ''_flash'') (Values g)\<rparr>))\<rparr>"

definition example_ctxRequest :: "(string mapkey, string) session CtxRequest" where
  "example_ctxRequest = \<lparr>Cookie = (\<lambda>n. Inl ErrNoCookie), Context = (\<lambda>k. None)\<rparr>"

section \<open>The session wrapper as a key/value bag\<close>

lemma Session_cached: "session s = Some g \<Longrightarrow> session_Session s = (Some g, s)"
  by (simp add: session_Session_def)

lemma check_fields [simp]:
  "session (check e s) = session s" "written (check e s) = written s"
  "store (check e s) = store s" "request (check e s) = request s" "name (check e s) = name s"
  by (simp_all add: check_def split: option.splits)

lemma Session_post:
  "session_Session s = (g, s1) \<Longrightarrow>
     session s1 = g \<and> written s1 = written s \<and> store s1 = store s
     \<and> request s1 = request s \<and> name s1 = name s"
  by (cases "session s") (auto simp: session_Session_def split: prod.splits)

lemma find_store_key: "find_key (store_key (Key x) v m) (Key x) = v"
  by (simp add: update_conv')

lemma find_remove_key: "find_key (remove_key k m) k = None"
  by (cases k) (simp_all add: delete_conv')

text \<open>
  The loop of \<open>Clear\<close> on a loaded session: every key of the range is deleted, and
  \<open>written\<close> is set as soon as the range has one key.
\<close>

lemma Clear_range_cached:
  "session s = Some g \<Longrightarrow>
   Clear_range ks s =
     (Returned (), s\<lparr>session := Some (g\<lparr>Values := fold remove_key ks (Values g)\<rparr>),
                     written := (written s \<or> ks \<noteq> [])\<rparr>)"
proof (induction ks arbitrary: s g)
  case Nil
  then show ?case by simp
next
  case (Cons k ks)
  let ?g1 = "g\<lparr>Values := remove_key k (Values g)\<rparr>"
  let ?s1 = "s\<lparr>session := Some ?g1, written := True\<rparr>"
  have d: "session_Delete (Hashable k) s = (Returned (), ?s1)"
    using Cons.prems by (simp add: session_Delete_def Session_cached)
  have "session ?s1 = Some ?g1" by simp
  from Cons.IH[OF this] d show ?case by simp
qed

lemma keys_remove_Key: "fst ` set (remove_key (Key x) m) = fst ` set m - {Key x}"
  using arg_cong[OF delete_keys[of "Key x" m], of set] by (simp del: delete_keys)

lemma keys_remove_key_subset: "fst ` set (remove_key k m) \<subseteq> fst ` set m"
proof (cases k)
  case (Key x)
  have "fst ` set (remove_key (Key x) m) \<subseteq> fst ` set m"
    unfolding keys_remove_Key by (rule Diff_subset)
  with Key show ?thesis by (simp only:)
next
  case NaNKey
  then show ?thesis by simp
qed

lemma keys_fold_subset: "fst ` set (fold remove_key ks m) \<subseteq> fst ` set m"
proof (induction ks arbitrary: m)
  case Nil
  show ?case by simp
next
  case (Cons a ks)
  have "fst ` set (fold remove_key ks (remove_key a m)) \<subseteq> fst ` set (remove_key a m)"
    by (rule Cons)
  also have "\<dots> \<subseteq> fst ` set m" by (rule keys_remove_key_subset)
  finally show ?case by simp
qed

lemma keys_fold_remove_key:
  "Key x \<in> set ks \<Longrightarrow> Key x \<notin> fst ` set (fold remove_key ks m)"
proof (induction ks arbitrary: m)
  case Nil
  then show ?case by simp
next
  case (Cons k ks)
  show ?case
  proof (cases "Key x \<in> set ks")
    case True
    from Cons.IH[OF True, of "remove_key k m"] show ?thesis by simp
  next
    case False
    with Cons.prems have k: "k = Key x" by simp
    have "Key x \<notin> fst ` set (remove_key (Key x) m)"
      unfolding keys_remove_Key by blast
    with keys_fold_subset[of ks "remove_key (Key x) m"]
    have "Key x \<notin> fst ` set (fold remove_key ks (remove_key (Key x) m))" by blast
    with k show ?thesis by (simp del: remove_key.simps)
  qed
qed

lemma find_after_clear: "find_key (fold remove_key (map fst m) m) k = None"
proof (cases k)
  case NaNKey
  then show ?thesis by simp
next
  case (Key x)
  have "Key x \<notin> fst ` set (fold remove_key (map fst m) m)"
  proof (cases "Key x \<in> fst ` set m")
    case True
    then have "Key x \<in> set (map fst m)" by simp
    from keys_fold_remove_key[OF this] show ?thesis .
  next
    case False
    with keys_fold_subset[of "map fst m" m] show ?thesis by blast
  qed
  then have "map_of (fold remove_key (map fst m) m) (Key x) = None"
    by (simp only: map_of_eq_None_iff not_False_eq_True)
  with Key show ?thesis by simp
qed

lemma Clear_spec:
  assumes "session_Session s = (Some g, s1)"
  shows "session_Clear s =
     (Returned (),
      s1\<lparr>session := Some (g\<lparr>Values := fold remove_key (map fst (Values g)) (Values g)\<rparr>),
         written := (written s \<or> Values g \<noteq> [])\<rparr>)"
proof -
  from Session_post[OF assms] have c: "session s1 = Some g" and w: "written s1 = written s"
    by simp_all
  show ?thesis
    using assms Clear_range_cached[OF c, of "map fst (Values g)"] w
    by (simp add: session_Clear_def)
qed

text \<open>
  C8, as the code has it. Whenever the wrapper has a session to work on (\<open>Session()\<close> is
  not nil: one is cached or the store's \<open>Get\<close> returns one), the session is a key/value
  bag on the keys that can be hashed and are equal to themselves: for such a key \<open>k\<close>,
  \<open>Set(k, v)\<close> returns and \<open>Get(k)\<close> then returns \<open>v\<close>. For every key that can be
  hashed, \<open>Delete(k)\<close> returns and \<open>Get(k)\<close> then returns nil, and \<open>Clear()\<close> returns
  and \<open>Get(k)\<close> then returns nil. A NaN key is set but never found again, and with a key
  that cannot be hashed \<open>Set\<close>, \<open>Get\<close> and \<open>Delete\<close> panic.
\<close>

theorem session_is_key_value_bag:
  assumes "fst (session_Session s) \<noteq> None"
  shows "(\<exists>s1. session_Set (Hashable (Key x)) v s = (Returned (), s1)
               \<and> fst (session_Get (Hashable (Key x)) s1) = Returned v)
       \<and> (\<exists>s1. session_Delete (Hashable k) s = (Returned (), s1)
               \<and> fst (session_Get (Hashable k) s1) = Returned None)
       \<and> (\<exists>s1. session_Clear s = (Returned (), s1)
               \<and> (\<forall>k'. fst (session_Get (Hashable k') s1) = Returned None))
       \<and> (\<exists>s1. session_Set (Hashable NaNKey) v s = (Returned (), s1)
               \<and> fst (session_Get (Hashable NaNKey) s1) = Returned None)
       \<and> fst (session_Set Unhashable v s) = Panicked
       \<and> fst (session_Get Unhashable s) = Panicked
       \<and> fst (session_Delete Unhashable s) = Panicked"
proof -
  from assms obtain g s0 where ss: "session_Session s = (Some g, s0)"
    by (cases "session_Session s") auto
  have 1: "\<exists>s1. session_Set (Hashable (Key x)) v s = (Returned (), s1)
               \<and> fst (session_Get (Hashable (Key x)) s1) = Returned v"
    using ss find_store_key[of x v "Values g"]
    by (simp add: session_Set_def session_Get_def Session_cached del: store_key.simps find_key.simps)
  have 2: "\<exists>s1. session_Delete (Hashable k) s = (Returned (), s1)
               \<and> fst (session_Get (Hashable k) s1) = Returned None"
    using ss by (simp add: session_Delete_def session_Get_def Session_cached find_remove_key)
  have 3: "\<exists>s1. session_Clear s = (Returned (), s1)
               \<and> (\<forall>k'. fst (session_Get (Hashable k') s1) = Returned None)"
    using Clear_spec[OF ss] by (simp add: session_Get_def Session_cached find_after_clear)
  have 4: "\<exists>s1. session_Set (Hashable NaNKey) v s = (Returned (), s1)
               \<and> fst (session_Get (Hashable NaNKey) s1) = Returned None"
    using ss by (simp add: session_Set_def session_Get_def Session_cached)
  have 5: "fst (session_Set Unhashable v s) = Panicked"
    "fst (session_Get Unhashable s) = Panicked"
    "fst (session_Delete Unhashable s) = Panicked"
    using ss by (simp_all add: session_Set_def session_Get_def session_Delete_def)
  from 1 2 3 4 5 show ?thesis by blast
qed

lemma example_session_loads:
  "fst (session_Session (newSession ''my_session'' (Request.truncate example_ctxRequest)
          example_store)) \<noteq> None"
  by (simp add: session_Session_def newSession_def example_store_def)

theorem session_is_key_value_bag_witness:
  "fst (session_Session (newSession ''my_session'' (Request.truncate example_ctxRequest)
          example_store)) \<noteq> None
   \<and> (\<exists>s1. session_Set (Hashable (Key ''hello'')) (Some ''world'')
              (newSession ''my_session'' (Request.truncate example_ctxRequest) example_store)
            = (Returned (), s1)
          \<and> fst (session_Get (Hashable (Key ''hello'')) s1) = Returned (Some ''world''))"
  using example_session_loads
    session_is_key_value_bag [OF example_session_loads, of "''hello''" "Some ''world''"]
  by blast

text \<open>
  The claim as the specification words it fails for a key that is not equal to itself:
  \<open>Get\<close> after \<open>Set\<close> of a NaN key returns nil, not the value. It fails for a key that
  cannot be hashed, where \<open>Set\<close> panics, and when the store has no session to give,
  where \<open>Set\<close> panics and \<open>Get\<close> after it panics as well.
\<close>

theorem Get_after_Set_counterexample:
  "fst (session_Get (Hashable NaNKey)
          (snd (session_Set (Hashable NaNKey) (Some ''world'')
             (newSession ''my_session'' (Request.truncate example_ctxRequest) example_store))))
     = Returned None
   \<and> fst (session_Set Unhashable (Some ''world'')
          (newSession ''my_session'' (Request.truncate example_ctxRequest) example_store))
     = Panicked
   \<and> fst (session_Set (Hashable (Key ''hello'')) (Some ''world'')
          (newSession ''my_session'' (Request.truncate example_ctxRequest) nil_store))
     = Panicked
   \<and> fst (session_Get (Hashable (Key ''hello''))
          (snd (session_Set (Hashable (Key ''hello'')) (Some ''world'')
             (newSession ''my_session'' (Request.truncate example_ctxRequest) nil_store))))
     = Panicked"
  by (simp add: session_Get_def session_Set_def session_Session_def newSession_def
        example_store_def nil_store_def check_def)

section \<open>GetSession\<close>

text \<open>
  C9. \<open>GetSession\<close> is total: it has no panic to return. On a request whose context was
  not populated by the middleware (no value under \<open>sessionKey\<close>, or a value that is not
  a \<open>*session\<close>) it returns nil.
\<close>

theorem GetSession_nil_without_middleware:
  "(\<forall>s. Context req sessionKey \<noteq> Some (SessionPtr s)) \<Longrightarrow> GetSession req = None"
  by (auto simp: GetSession_def split: option.splits ctxValue.splits)

theorem GetSession_nil_without_middleware_witness:
  "(\<forall>s. Context example_ctxRequest sessionKey \<noteq> Some (SessionPtr s))
   \<and> GetSession example_ctxRequest = None"
proof -
  have h: "\<forall>s. Context example_ctxRequest sessionKey \<noteq> Some (SessionPtr s)"
    by (simp add: example_ctxRequest_def)
  from h GetSession_nil_without_middleware [of example_ctxRequest] show ?thesis by blast
qed

section \<open>mongostore: invalid ids\<close>

text \<open>
  C7. When the session's id is not an object-id hex string, each of \<open>load\<close>, \<open>save\<close> and
  \<open>delete\<close> of mongoStore returns \<open>ErrInvalidId\<close> with no call made to the database
  and the session, its values included, as it was.
\<close>

theorem mongoStore_invalid_id:
  assumes "\<not> IsObjectIdHex E (ID g)"
  shows "mongoStore_load E m g tr = ((False, Some ErrInvalidId), g, tr)
       \<and> mongoStore_save E m g tr = (Some ErrInvalidId, tr)
       \<and> mongoStore_delete E m g tr = (Some ErrInvalidId, tr)"
  using assms by (simp add: mongoStore_load_def mongoStore_save_def mongoStore_delete_def)

theorem mongoStore_invalid_id_witness:
  "\<not> IsObjectIdHex example_env (ID (example_dbSession\<lparr>ID := ''not-an-id''\<rparr>))
   \<and> mongoStore_load example_env example_mongoStore (example_dbSession\<lparr>ID := ''not-an-id''\<rparr>) []
       = ((False, Some ErrInvalidId), example_dbSession\<lparr>ID := ''not-an-id''\<rparr>, [])
   \<and> mongoStore_save example_env example_mongoStore (example_dbSession\<lparr>ID := ''not-an-id''\<rparr>) []
       = (Some ErrInvalidId, [])
   \<and> mongoStore_delete example_env example_mongoStore (example_dbSession\<lparr>ID := ''not-an-id''\<rparr>) []
       = (Some ErrInvalidId, [])"
proof -
  have h: "\<not> IsObjectIdHex example_env (ID (example_dbSession\<lparr>ID := ''not-an-id''\<rparr>))"
    by (simp add: example_env_def)
  from h mongoStore_invalid_id [OF h, of example_mongoStore "[]"] show ?thesis by blast
qed

section \<open>mongostore and dalstore: New\<close>

lemma mongoStore_load_ok:
  "(fst (mongoStore_load E m g tr) = (ok, err)) \<Longrightarrow>
   (err = None \<and> ok) =
     (IsObjectIdHex E (ID g)
      \<and> (\<exists>doc. FindId_One (handle m) (database m) (collection m) (ObjectIdHex E (ID g))
                   \<lparr>docID = [], Data = [], Modified = 0\<rparr> = (None, doc)
               \<and> fst (DecodeMulti_Values (Codecs m) (Name g) (Data doc) (Values g)) = None))"
  by (auto simp: mongoStore_load_def Let_def split: prod.splits option.splits if_splits)

lemma dalStore_load_ok:
  "(fst (dalStore_load E d g tr) = (ok, err)) \<Longrightarrow>
   (err = None \<and> ok) =
     (IsObjectIdHex E (ID g)
      \<and> (\<exists>doc. FindId_One (handle d) (database d) (collection d) (ObjectIdHex E (ID g))
                   \<lparr>docID = [], Data = [], Modified = 0\<rparr> = (None, doc)
               \<and> fst (DecodeMulti_Values (Codecs d) (Name g) (Data doc) (Values g)) = None))"
  by (auto simp: dalStore_load_def Let_def split: prod.splits option.splits if_splits)

lemma mongoStore_load_keeps:
  "mongoStore_load E m g tr = (res, g1, tr1) \<Longrightarrow> IsNew g1 = IsNew g \<and> Name g1 = Name g"
  by (auto simp: mongoStore_load_def Let_def split: prod.splits option.splits if_splits)

lemma mongoStore_New_IsNew:
  "(\<not> IsNew (fst (mongoStore_New E m r nm tr))) =
     (\<exists>cook id1 doc. Cookie r nm = Inr cook
        \<and> DecodeMulti_ID (Codecs m) nm cook [] = (None, id1)
        \<and> IsObjectIdHex E id1
        \<and> FindId_One (handle m) (database m) (collection m) (ObjectIdHex E id1)
             \<lparr>docID = [], Data = [], Modified = 0\<rparr> = (None, doc)
        \<and> fst (DecodeMulti_Values (Codecs m) nm (Data doc) []) = None)"
proof (cases "Cookie r nm")
  case (Inl e)
  then show ?thesis by (simp add: mongoStore_New_def GetToken_def)
next
  case (Inr cook)
  obtain err id1 where d: "DecodeMulti_ID (Codecs m) nm cook [] = (err, id1)"
    by (cases "DecodeMulti_ID (Codecs m) nm cook []") auto
  show ?thesis
  proof (cases err)
    case (Some e)
    with Inr d show ?thesis by (simp add: mongoStore_New_def GetToken_def)
  next
    case None
    let ?g = "\<lparr>ID = id1, Values = [],
               SOptions = \<lparr>gPath = gPath (options m), gDomain = [],
                           gMaxAge = gMaxAge (options m), gSecure = False,
                           gHttpOnly = False\<rparr>,
               IsNew = True, Name = nm\<rparr> :: dbSession"
    obtain ok err1 g1 tr1 where l: "mongoStore_load E m ?g tr = ((ok, err1), g1, tr1)"
      by (cases "mongoStore_load E m ?g tr") auto
    then have "fst (mongoStore_load E m ?g tr) = (ok, err1)" by simp
    from mongoStore_load_ok[OF this] Inr d None l show ?thesis
      by (simp add: mongoStore_New_def GetToken_def)
  qed
qed

lemma mongoStore_New_error:
  "(fst (snd (mongoStore_New E m r nm tr)) = Some e) =
     (\<exists>cook. Cookie r nm = Inr cook \<and> fst (DecodeMulti_ID (Codecs m) nm cook []) = Some e)"
  by (cases "Cookie r nm")
     (auto simp: mongoStore_New_def GetToken_def Let_def split: prod.splits option.splits)

lemma dalStore_New_IsNew:
  "(\<not> IsNew (fst (dalStore_New E d r nm tr))) =
     (\<exists>cook id1 doc. Cookie r nm = Inr cook
        \<and> DecodeMulti_ID (Codecs d) nm cook [] = (None, id1)
        \<and> IsObjectIdHex E id1
        \<and> FindId_One (handle d) (database d) (collection d) (ObjectIdHex E id1)
             \<lparr>docID = [], Data = [], Modified = 0\<rparr> = (None, doc)
        \<and> fst (DecodeMulti_Values (Codecs d) nm (Data doc) []) = None)"
proof (cases "Cookie r nm")
  case (Inl e)
  then show ?thesis by (simp add: dalStore_New_def GetToken_def)
next
  case (Inr cook)
  obtain err id1 where d: "DecodeMulti_ID (Codecs d) nm cook [] = (err, id1)"
    by (cases "DecodeMulti_ID (Codecs d) nm cook []") auto
  show ?thesis
  proof (cases err)
    case (Some e)
    with Inr d show ?thesis by (simp add: dalStore_New_def GetToken_def)
  next
    case None
    let ?g = "\<lparr>ID = id1, Values = [], SOptions = options d,
               IsNew = True, Name = nm\<rparr> :: dbSession"
    obtain ok err1 g1 tr1 where l: "dalStore_load E d ?g tr = ((ok, err1), g1, tr1)"
      by (cases "dalStore_load E d ?g tr") auto
    then have "fst (dalStore_load E d ?g tr) = (ok, err1)" by simp
    from dalStore_load_ok[OF this] Inr d None l show ?thesis
      by (simp add: dalStore_New_def GetToken_def)
  qed
qed

lemma dalStore_New_error:
  "(fst (snd (dalStore_New E d r nm tr)) = Some e) =
     (\<exists>cook. Cookie r nm = Inr cook \<and> fst (DecodeMulti_ID (Codecs d) nm cook []) = Some e)"
  by (cases "Cookie r nm")
     (auto simp: dalStore_New_def GetToken_def Let_def split: prod.splits option.splits)

text \<open>
  C2. \<open>mongoStore.New\<close>, and likewise \<open>dalStore.New\<close>, returns a session with
  \<open>IsNew = false\<close> exactly when the request carries a cookie of the session's name, the
  codec decodes it to an id without error, and the document of that id is fetched (the id
  is an object-id hex and the driver finds it) and its data decoded without error. The
  error returned is exactly the error of decoding the cookie: it is nil when there is no
  cookie and nil whatever happens while the document is fetched and decoded.
\<close>

theorem New_IsNew_and_error:
  "((\<not> IsNew (fst (mongoStore_New E m r nm tr))) =
      (\<exists>cook id1 doc. Cookie r nm = Inr cook
         \<and> DecodeMulti_ID (Codecs m) nm cook [] = (None, id1)
         \<and> IsObjectIdHex E id1
         \<and> FindId_One (handle m) (database m) (collection m) (ObjectIdHex E id1)
              \<lparr>docID = [], Data = [], Modified = 0\<rparr> = (None, doc)
         \<and> fst (DecodeMulti_Values (Codecs m) nm (Data doc) []) = None))
   \<and> ((fst (snd (mongoStore_New E m r nm tr)) = Some e) =
      (\<exists>cook. Cookie r nm = Inr cook \<and> fst (DecodeMulti_ID (Codecs m) nm cook []) = Some e))
   \<and> ((\<not> IsNew (fst (dalStore_New E m r nm tr))) =
      (\<exists>cook id1 doc. Cookie r nm = Inr cook
         \<and> DecodeMulti_ID (Codecs m) nm cook [] = (None, id1)
         \<and> IsObjectIdHex E id1
         \<and> FindId_One (handle m) (database m) (collection m) (ObjectIdHex E id1)
              \<lparr>docID = [], Data = [], Modified = 0\<rparr> = (None, doc)
         \<and> fst (DecodeMulti_Values (Codecs m) nm (Data doc) []) = None))
   \<and> ((fst (snd (dalStore_New E m r nm tr)) = Some e) =
      (\<exists>cook. Cookie r nm = Inr cook \<and> fst (DecodeMulti_ID (Codecs m) nm cook []) = Some e))"
  using mongoStore_New_IsNew [of E m r nm tr] mongoStore_New_error [of E m r nm tr e]
    dalStore_New_IsNew [of E m r nm tr] dalStore_New_error [of E m r nm tr e]
  by blast

theorem New_IsNew_and_error_witness:
  "\<not> IsNew (fst (mongoStore_New example_env example_mongoStore example_request
                  ''my_session'' []))
   \<and> fst (snd (mongoStore_New example_env example_mongoStore example_request
                  ''my_session'' [])) = None
   \<and> IsNew (fst (mongoStore_New example_env failing_mongoStore example_request
                  ''my_session'' []))"
proof -
  note T = New_IsNew_and_error [of example_env example_mongoStore example_request
             "''my_session''" "[]"]
  note F = New_IsNew_and_error [of example_env failing_mongoStore example_request
             "''my_session''" "[]"]
  have a: "\<exists>cook id1 doc. Cookie example_request ''my_session'' = Inr cook
         \<and> DecodeMulti_ID (Codecs example_mongoStore) ''my_session'' cook [] = (None, id1)
         \<and> IsObjectIdHex example_env id1
         \<and> FindId_One (handle example_mongoStore) (database example_mongoStore)
              (collection example_mongoStore) (ObjectIdHex example_env id1)
              \<lparr>docID = [], Data = [], Modified = 0\<rparr> = (None, doc)
         \<and> fst (DecodeMulti_Values (Codecs example_mongoStore) ''my_session'' (Data doc) [])
             = None"
    by (simp add: example_request_def example_mongoStore_def example_codecs_def
          example_env_def example_driver_def)
  have 1: "\<not> IsNew (fst (mongoStore_New example_env example_mongoStore example_request
                  ''my_session'' []))"
    using T [THEN conjunct1] a by blast
  have b: "\<not> (\<exists>cook. Cookie example_request ''my_session'' = Inr cook
         \<and> fst (DecodeMulti_ID (Codecs example_mongoStore) ''my_session'' cook []) = Some e)"
    for e
    by (simp add: example_request_def example_mongoStore_def example_codecs_def)
  have "fst (snd (mongoStore_New example_env example_mongoStore example_request
                  ''my_session'' [])) \<noteq> Some e" for e
    using T [of e, THEN conjunct2, THEN conjunct1] b [of e] by blast
  then have 2: "fst (snd (mongoStore_New example_env example_mongoStore example_request
                  ''my_session'' [])) = None"
    by (cases "fst (snd (mongoStore_New example_env example_mongoStore example_request
                  ''my_session'' []))") auto
  have c: "\<not> (\<exists>cook id1 doc. Cookie example_request ''my_session'' = Inr cook
         \<and> DecodeMulti_ID (Codecs failing_mongoStore) ''my_session'' cook [] = (None, id1)
         \<and> IsObjectIdHex example_env id1
         \<and> FindId_One (handle failing_mongoStore) (database failing_mongoStore)
              (collection failing_mongoStore) (ObjectIdHex example_env id1)
              \<lparr>docID = [], Data = [], Modified = 0\<rparr> = (None, doc)
         \<and> fst (DecodeMulti_Values (Codecs failing_mongoStore) ''my_session'' (Data doc) [])
             = None)"
    by (simp add: failing_mongoStore_def failing_driver_def)
  have 3: "IsNew (fst (mongoStore_New example_env failing_mongoStore example_request
                  ''my_session'' []))"
    using F [THEN conjunct1] c by blast
  from 1 2 3 show ?thesis by simp
qed

section \<open>mongostore and dalstore: Save\<close>

lemma mongoStore_save_None:
  "(mongoStore_save E m g tr = (None, tr1)) =
     (IsObjectIdHex E (ID g)
      \<and> (\<exists>t enc. modified_of E g = Inr t
            \<and> EncodeMulti_Values (Codecs m) (Name g) (Values g) = Inr enc
            \<and> UpsertId (handle m) (database m) (collection m) (ObjectIdHex E (ID g))
                 \<lparr>docID = [], Data = enc, Modified = t\<rparr> = None
            \<and> tr1 = tr @ [CallUpsertId (database m) (collection m) (ObjectIdHex E (ID g))
                             \<lparr>docID = [], Data = enc, Modified = t\<rparr>]))"
  by (auto simp: mongoStore_save_def Let_def split: sum.splits)

lemma dalStore_save_None:
  "(dalStore_save E d g tr = (None, tr1)) =
     (IsObjectIdHex E (ID g)
      \<and> (\<exists>t enc. modified_of E g = Inr t
            \<and> EncodeMulti_Values (Codecs d) (Name g) (Values g) = Inr enc
            \<and> UpsertId (handle d) (database d) (collection d) (ObjectIdHex E (ID g))
                 \<lparr>docID = ObjectIdHex E (ID g), Data = enc, Modified = t\<rparr> = None
            \<and> tr1 = tr @ [CallUpsertId (database d) (collection d) (ObjectIdHex E (ID g))
                             \<lparr>docID = ObjectIdHex E (ID g), Data = enc, Modified = t\<rparr>]))"
  by (auto simp: dalStore_save_def Let_def split: sum.splits)

text \<open>A successful \<open>Save\<close> with a non-negative \<open>MaxAge\<close>, step by step.\<close>

lemma mongoStore_Save_None:
  assumes "mongoStore_Save E m r w g tr = (None, w1, g1, tr1)"
    and "0 \<le> gMaxAge (SOptions g)"
  shows "g1 = (if ID g = [] then g\<lparr>ID := NewObjectId_Hex E\<rparr> else g)"
    and "mongoStore_save E m g1 tr = (None, tr1)"
    and "\<exists>enc_id. EncodeMulti_ID (Codecs m) (Name g) (ID g1) = Inr enc_id
             \<and> w1 = SetToken w (Name g) enc_id (SOptions g)"
proof -
  let ?g1 = "if ID g = [] then g\<lparr>ID := NewObjectId_Hex E\<rparr> else g"
  obtain err trs where s: "mongoStore_save E m ?g1 tr = (err, trs)"
    by (cases "mongoStore_save E m ?g1 tr") auto
  have e: "mongoStore_Save E m r w g tr =
      (case err of
         Some e \<Rightarrow> (Some e, w, ?g1, trs)
       | None \<Rightarrow> (case EncodeMulti_ID (Codecs m) (Name g) (ID ?g1) of
             Inl e \<Rightarrow> (Some e, w, ?g1, trs)
           | Inr encoded \<Rightarrow> (None, SetToken w (Name g) encoded (SOptions g), ?g1, trs)))"
    using assms(2) s
    by (cases "ID g = []") (simp_all add: mongoStore_Save_def Let_def split: option.splits sum.splits)
  from e assms(1) show "g1 = ?g1"
    by (cases err; cases "EncodeMulti_ID (Codecs m) (Name g) (ID ?g1)") simp_all
  from e assms(1) s show "mongoStore_save E m g1 tr = (None, tr1)"
    by (cases err; cases "EncodeMulti_ID (Codecs m) (Name g) (ID ?g1)") simp_all
  from e assms(1) show "\<exists>enc_id. EncodeMulti_ID (Codecs m) (Name g) (ID g1) = Inr enc_id
             \<and> w1 = SetToken w (Name g) enc_id (SOptions g)"
    by (cases err; cases "EncodeMulti_ID (Codecs m) (Name g) (ID ?g1)") simp_all
qed

lemma dalStore_Save_None:
  assumes "dalStore_Save E d r w g tr = (None, w1, g1, tr1)"
    and "0 \<le> gMaxAge (SOptions g)"
  shows "g1 = (if ID g = [] then g\<lparr>ID := NewObjectId_Hex E\<rparr> else g)"
    and "dalStore_save E d g1 tr = (None, tr1)"
    and "\<exists>enc_id. EncodeMulti_ID (Codecs d) (Name g) (ID g1) = Inr enc_id
             \<and> w1 = SetToken w (Name g) enc_id (SOptions g)"
proof -
  let ?g1 = "if ID g = [] then g\<lparr>ID := NewObjectId_Hex E\<rparr> else g"
  obtain err trs where s: "dalStore_save E d ?g1 tr = (err, trs)"
    by (cases "dalStore_save E d ?g1 tr") auto
  have e: "dalStore_Save E d r w g tr =
      (case err of
         Some e \<Rightarrow> (Some e, w, ?g1, trs)
       | None \<Rightarrow> (case EncodeMulti_ID (Codecs d) (Name g) (ID ?g1) of
             Inl e \<Rightarrow> (Some e, w, ?g1, trs)
           | Inr encoded \<Rightarrow> (None, SetToken w (Name g) encoded (SOptions g), ?g1, trs)))"
    using assms(2) s
    by (cases "ID g = []") (simp_all add: dalStore_Save_def Let_def split: option.splits sum.splits)
  from e assms(1) show "g1 = ?g1"
    by (cases err; cases "EncodeMulti_ID (Codecs d) (Name g) (ID ?g1)") simp_all
  from e assms(1) s show "dalStore_save E d g1 tr = (None, tr1)"
    by (cases err; cases "EncodeMulti_ID (Codecs d) (Name g) (ID ?g1)") simp_all
  from e assms(1) show "\<exists>enc_id. EncodeMulti_ID (Codecs d) (Name g) (ID g1) = Inr enc_id
             \<and> w1 = SetToken w (Name g) enc_id (SOptions g)"
    by (cases err; cases "EncodeMulti_ID (Codecs d) (Name g) (ID ?g1)") simp_all
qed

lemma mongoStore_Save_cookie_and_document:
  assumes "mongoStore_Save E m r w g tr = (None, w1, g1, tr1)"
    and "0 \<le> gMaxAge (SOptions g)"
  shows "\<exists>enc_id enc t.
           ID g1 = (if ID g = [] then NewObjectId_Hex E else ID g)
         \<and> EncodeMulti_ID (Codecs m) (Name g) (ID g1) = Inr enc_id
         \<and> w1 = w @ [\<lparr>cookieName = Name g, cookieValue = enc_id,
                       cookieOptions = SOptions g\<rparr>]
         \<and> EncodeMulti_Values (Codecs m) (Name g) (Values g) = Inr enc
         \<and> tr1 = tr @ [CallUpsertId (database m) (collection m) (ObjectIdHex E (ID g1))
                          \<lparr>docID = [], Data = enc, Modified = t\<rparr>]
         \<and> UpsertId (handle m) (database m) (collection m) (ObjectIdHex E (ID g1))
              \<lparr>docID = [], Data = enc, Modified = t\<rparr> = None"
proof -
  note S = mongoStore_Save_None[OF assms]
  have i: "ID g1 = (if ID g = [] then NewObjectId_Hex E else ID g)"
    and same: "Name g1 = Name g" "Values g1 = Values g"
    using S(1) by (simp_all split: if_splits)
  from S(2) obtain t enc where u:
    "EncodeMulti_Values (Codecs m) (Name g1) (Values g1) = Inr enc"
    "UpsertId (handle m) (database m) (collection m) (ObjectIdHex E (ID g1))
       \<lparr>docID = [], Data = enc, Modified = t\<rparr> = None"
    "tr1 = tr @ [CallUpsertId (database m) (collection m) (ObjectIdHex E (ID g1))
                   \<lparr>docID = [], Data = enc, Modified = t\<rparr>]"
    unfolding mongoStore_save_None by blast
  from S(3) obtain enc_id where c:
    "EncodeMulti_ID (Codecs m) (Name g) (ID g1) = Inr enc_id"
    "w1 = SetToken w (Name g) enc_id (SOptions g)"
    by blast
  from c(2) have w: "w1 = w @ [\<lparr>cookieName = Name g, cookieValue = enc_id,
                       cookieOptions = SOptions g\<rparr>]"
    by (simp add: SetToken_def)
  from i c(1) w u show ?thesis unfolding same by blast
qed

lemma dalStore_Save_cookie_and_document:
  assumes "dalStore_Save E d r w g tr = (None, w1, g1, tr1)"
    and "0 \<le> gMaxAge (SOptions g)"
  shows "\<exists>enc_id enc t.
           ID g1 = (if ID g = [] then NewObjectId_Hex E else ID g)
         \<and> EncodeMulti_ID (Codecs d) (Name g) (ID g1) = Inr enc_id
         \<and> w1 = w @ [\<lparr>cookieName = Name g, cookieValue = enc_id,
                       cookieOptions = SOptions g\<rparr>]
         \<and> EncodeMulti_Values (Codecs d) (Name g) (Values g) = Inr enc
         \<and> tr1 = tr @ [CallUpsertId (database d) (collection d) (ObjectIdHex E (ID g1))
                          \<lparr>docID = ObjectIdHex E (ID g1), Data = enc, Modified = t\<rparr>]
         \<and> UpsertId (handle d) (database d) (collection d) (ObjectIdHex E (ID g1))
              \<lparr>docID = ObjectIdHex E (ID g1), Data = enc, Modified = t\<rparr> = None"
proof -
  note S = dalStore_Save_None[OF assms]
  have i: "ID g1 = (if ID g = [] then NewObjectId_Hex E else ID g)"
    and same: "Name g1 = Name g" "Values g1 = Values g"
    using S(1) by (simp_all split: if_splits)
  from S(2) obtain t enc where u:
    "EncodeMulti_Values (Codecs d) (Name g1) (Values g1) = Inr enc"
    "UpsertId (handle d) (database d) (collection d) (ObjectIdHex E (ID g1))
       \<lparr>docID = ObjectIdHex E (ID g1), Data = enc, Modified = t\<rparr> = None"
    "tr1 = tr @ [CallUpsertId (database d) (collection d) (ObjectIdHex E (ID g1))
                   \<lparr>docID = ObjectIdHex E (ID g1), Data = enc, Modified = t\<rparr>]"
    unfolding dalStore_save_None by blast
  from S(3) obtain enc_id where c:
    "EncodeMulti_ID (Codecs d) (Name g) (ID g1) = Inr enc_id"
    "w1 = SetToken w (Name g) enc_id (SOptions g)"
    by blast
  from c(2) have w: "w1 = w @ [\<lparr>cookieName = Name g, cookieValue = enc_id,
                       cookieOptions = SOptions g\<rparr>]"
    by (simp add: SetToken_def)
  from i c(1) w u show ?thesis unfolding same by blast
qed

text \<open>The cookie of a successful \<open>Save\<close> does not depend on the values.\<close>

lemma mongoStore_Save_cookie_independent:
  assumes "mongoStore_Save E m r w g tr = (None, w1, g1, tr1)"
    and "mongoStore_Save E m r w (g\<lparr>Values := vs\<rparr>) tr = (None, w2, g2, tr2)"
    and "0 \<le> gMaxAge (SOptions g)"
  shows "w2 = w1"
proof -
  from assms(3) have p: "0 \<le> gMaxAge (SOptions (g\<lparr>Values := vs\<rparr>))" by simp
  note A = mongoStore_Save_None[OF assms(1) assms(3)]
  note B = mongoStore_Save_None[OF assms(2) p]
  from A(1) B(1) have "ID g2 = ID g1" by (simp split: if_splits)
  with A(3) B(3) show ?thesis by auto
qed

lemma dalStore_Save_cookie_independent:
  assumes "dalStore_Save E d r w g tr = (None, w1, g1, tr1)"
    and "dalStore_Save E d r w (g\<lparr>Values := vs\<rparr>) tr = (None, w2, g2, tr2)"
    and "0 \<le> gMaxAge (SOptions g)"
  shows "w2 = w1"
proof -
  from assms(3) have p: "0 \<le> gMaxAge (SOptions (g\<lparr>Values := vs\<rparr>))" by simp
  note A = dalStore_Save_None[OF assms(1) assms(3)]
  note B = dalStore_Save_None[OF assms(2) p]
  from A(1) B(1) have "ID g2 = ID g1" by (simp split: if_splits)
  with A(3) B(3) show ?thesis by auto
qed

text \<open>
  C3. After a successful \<open>Save\<close> of mongoStore or dalStore with \<open>MaxAge >= 0\<close>, the one
  cookie set on the response carries the codec's encoding of the session id (the fresh id
  when the session had none), and the values map is encoded by the codec into the \<open>Data\<close>
  field of the document upserted under that id. The values are not in the cookie: a
  successful \<open>Save\<close> of the same session with any other values sets the same cookie.
\<close>

theorem Save_cookie_holds_id_document_holds_values:
  "(mongoStore_Save E m r w g tr = (None, w1, g1, tr1) \<and> 0 \<le> gMaxAge (SOptions g) \<longrightarrow>
      (\<exists>enc_id enc t.
           ID g1 = (if ID g = [] then NewObjectId_Hex E else ID g)
         \<and> EncodeMulti_ID (Codecs m) (Name g) (ID g1) = Inr enc_id
         \<and> w1 = w @ [\<lparr>cookieName = Name g, cookieValue = enc_id,
                       cookieOptions = SOptions g\<rparr>]
         \<and> EncodeMulti_Values (Codecs m) (Name g) (Values g) = Inr enc
         \<and> tr1 = tr @ [CallUpsertId (database m) (collection m) (ObjectIdHex E (ID g1))
                          \<lparr>docID = [], Data = enc, Modified = t\<rparr>]
         \<and> UpsertId (handle m) (database m) (collection m) (ObjectIdHex E (ID g1))
              \<lparr>docID = [], Data = enc, Modified = t\<rparr> = None)
      \<and> (\<forall>vs w2 g2 tr2.
            mongoStore_Save E m r w (g\<lparr>Values := vs\<rparr>) tr = (None, w2, g2, tr2)
            \<longrightarrow> w2 = w1))
   \<and> (dalStore_Save E m r w g tr = (None, w1, g1, tr1) \<and> 0 \<le> gMaxAge (SOptions g) \<longrightarrow>
      (\<exists>enc_id enc t.
           ID g1 = (if ID g = [] then NewObjectId_Hex E else ID g)
         \<and> EncodeMulti_ID (Codecs m) (Name g) (ID g1) = Inr enc_id
         \<and> w1 = w @ [\<lparr>cookieName = Name g, cookieValue = enc_id,
                       cookieOptions = SOptions g\<rparr>]
         \<and> EncodeMulti_Values (Codecs m) (Name g) (Values g) = Inr enc
         \<and> tr1 = tr @ [CallUpsertId (database m) (collection m) (ObjectIdHex E (ID g1))
                          \<lparr>docID = ObjectIdHex E (ID g1), Data = enc, Modified = t\<rparr>]
         \<and> UpsertId (handle m) (database m) (collection m) (ObjectIdHex E (ID g1))
              \<lparr>docID = ObjectIdHex E (ID g1), Data = enc, Modified = t\<rparr> = None)
      \<and> (\<forall>vs w2 g2 tr2.
            dalStore_Save E m r w (g\<lparr>Values := vs\<rparr>) tr = (None, w2, g2, tr2)
            \<longrightarrow> w2 = w1))"
proof (intro conjI impI allI)
  assume a: "mongoStore_Save E m r w g tr = (None, w1, g1, tr1) \<and> 0 \<le> gMaxAge (SOptions g)"
  from a mongoStore_Save_cookie_and_document [of E m r w g tr w1 g1 tr1]
  show "\<exists>enc_id enc t.
           ID g1 = (if ID g = [] then NewObjectId_Hex E else ID g)
         \<and> EncodeMulti_ID (Codecs m) (Name g) (ID g1) = Inr enc_id
         \<and> w1 = w @ [\<lparr>cookieName = Name g, cookieValue = enc_id,
                       cookieOptions = SOptions g\<rparr>]
         \<and> EncodeMulti_Values (Codecs m) (Name g) (Values g) = Inr enc
         \<and> tr1 = tr @ [CallUpsertId (database m) (collection m) (ObjectIdHex E (ID g1))
                          \<lparr>docID = [], Data = enc, Modified = t\<rparr>]
         \<and> UpsertId (handle m) (database m) (collection m) (ObjectIdHex E (ID g1))
              \<lparr>docID = [], Data = enc, Modified = t\<rparr> = None"
    by blast
  fix vs w2 g2 tr2
  assume "mongoStore_Save E m r w (g\<lparr>Values := vs\<rparr>) tr = (None, w2, g2, tr2)"
  with a mongoStore_Save_cookie_independent [of E m r w g tr w1 g1 tr1 vs w2 g2 tr2]
  show "w2 = w1" by blast
next
  assume a: "dalStore_Save E m r w g tr = (None, w1, g1, tr1) \<and> 0 \<le> gMaxAge (SOptions g)"
  from a dalStore_Save_cookie_and_document [of E m r w g tr w1 g1 tr1]
  show "\<exists>enc_id enc t.
           ID g1 = (if ID g = [] then NewObjectId_Hex E else ID g)
         \<and> EncodeMulti_ID (Codecs m) (Name g) (ID g1) = Inr enc_id
         \<and> w1 = w @ [\<lparr>cookieName = Name g, cookieValue = enc_id,
                       cookieOptions = SOptions g\<rparr>]
         \<and> EncodeMulti_Values (Codecs m) (Name g) (Values g) = Inr enc
         \<and> tr1 = tr @ [CallUpsertId (database m) (collection m) (ObjectIdHex E (ID g1))
                          \<lparr>docID = ObjectIdHex E (ID g1), Data = enc, Modified = t\<rparr>]
         \<and> UpsertId (handle m) (database m) (collection m) (ObjectIdHex E (ID g1))
              \<lparr>docID = ObjectIdHex E (ID g1), Data = enc, Modified = t\<rparr> = None"
    by blast
  fix vs w2 g2 tr2
  assume "dalStore_Save E m r w (g\<lparr>Values := vs\<rparr>) tr = (None, w2, g2, tr2)"
  with a dalStore_Save_cookie_independent [of E m r w g tr w1 g1 tr1 vs w2 g2 tr2]
  show "w2 = w1" by blast
qed

lemma example_mongoStore_Save:
  "mongoStore_Save example_env example_mongoStore example_request [] example_dbSession []
     = (None,
        [\<lparr>cookieName = ''my_session'', cookieValue = ''id:507f1f77bcf86cd799439011'',
          cookieOptions = example_options\<rparr>],
        example_dbSession,
        [CallUpsertId ''app'' ''sessions'' ''507f1f77bcf86cd799439011''
           \<lparr>docID = [], Data = ''blob'', Modified = 1000\<rparr>])"
  by (simp add: mongoStore_Save_def mongoStore_save_def modified_of_def SetToken_def
        example_env_def example_mongoStore_def example_dbSession_def example_codecs_def
        example_driver_def example_options_def)

lemma example_dalStore_Save:
  "dalStore_Save example_env example_mongoStore example_request [] example_dbSession []
     = (None,
        [\<lparr>cookieName = ''my_session'', cookieValue = ''id:507f1f77bcf86cd799439011'',
          cookieOptions = example_options\<rparr>],
        example_dbSession,
        [CallUpsertId ''app'' ''sessions'' ''507f1f77bcf86cd799439011''
           \<lparr>docID = ''507f1f77bcf86cd799439011'', Data = ''blob'', Modified = 1000\<rparr>])"
  by (simp add: dalStore_Save_def dalStore_save_def modified_of_def SetToken_def Let_def
        example_env_def example_mongoStore_def example_dbSession_def example_codecs_def
        example_driver_def example_options_def)

theorem Save_cookie_holds_id_document_holds_values_witness:
  "mongoStore_Save example_env example_mongoStore example_request [] example_dbSession []
     = (None,
        [\<lparr>cookieName = ''my_session'', cookieValue = ''id:507f1f77bcf86cd799439011'',
          cookieOptions = example_options\<rparr>],
        example_dbSession,
        [CallUpsertId ''app'' ''sessions'' ''507f1f77bcf86cd799439011''
           \<lparr>docID = [], Data = ''blob'', Modified = 1000\<rparr>])
   \<and> dalStore_Save example_env example_mongoStore example_request [] example_dbSession []
     = (None,
        [\<lparr>cookieName = ''my_session'', cookieValue = ''id:507f1f77bcf86cd799439011'',
          cookieOptions = example_options\<rparr>],
        example_dbSession,
        [CallUpsertId ''app'' ''sessions'' ''507f1f77bcf86cd799439011''
           \<lparr>docID = ''507f1f77bcf86cd799439011'', Data = ''blob'', Modified = 1000\<rparr>])
   \<and> 0 \<le> gMaxAge (SOptions example_dbSession)
   \<and> (\<exists>enc_id. EncodeMulti_ID (Codecs example_mongoStore) (Name example_dbSession)
                   (ID example_dbSession) = Inr enc_id
         \<and> [\<lparr>cookieName = ''my_session'', cookieValue = ''id:507f1f77bcf86cd799439011'',
              cookieOptions = example_options\<rparr>]
            = [] @ [\<lparr>cookieName = Name example_dbSession, cookieValue = enc_id,
                      cookieOptions = SOptions example_dbSession\<rparr>])"
proof -
  have p: "0 \<le> gMaxAge (SOptions example_dbSession)"
    by (simp add: example_dbSession_def example_options_def)
  note T = Save_cookie_holds_id_document_holds_values
      [of example_env example_mongoStore example_request "[]" example_dbSession "[]"
          "[\<lparr>cookieName = ''my_session'', cookieValue = ''id:507f1f77bcf86cd799439011'',
             cookieOptions = example_options\<rparr>]"
          example_dbSession]
  from example_mongoStore_Save example_dalStore_Save p
    T [of "[CallUpsertId ''app'' ''sessions'' ''507f1f77bcf86cd799439011''
              \<lparr>docID = [], Data = ''blob'', Modified = 1000\<rparr>]", THEN conjunct1]
    T [of "[CallUpsertId ''app'' ''sessions'' ''507f1f77bcf86cd799439011''
              \<lparr>docID = ''507f1f77bcf86cd799439011'', Data = ''blob'',
                 Modified = 1000\<rparr>]", THEN conjunct2]
  show ?thesis by blast
qed

section \<open>mongostore: deleting, fresh ids and failures\<close>

lemma mongoStore_Save_when_negative:
  assumes "gMaxAge (SOptions g) < 0"
  shows "mongoStore_Save E m r w g tr =
     (if \<not> IsObjectIdHex E (ID g) then (Some ErrInvalidId, w, g, tr)
      else case RemoveId (handle m) (database m) (collection m) (ObjectIdHex E (ID g)) of
          Some e \<Rightarrow>
            (Some e, w, g,
             tr @ [CallRemoveId (database m) (collection m) (ObjectIdHex E (ID g))])
        | None \<Rightarrow>
            (None,
             w @ [\<lparr>cookieName = Name g, cookieValue = [], cookieOptions = SOptions g\<rparr>],
             g,
             tr @ [CallRemoveId (database m) (collection m) (ObjectIdHex E (ID g))]))"
  using assms
  by (simp add: mongoStore_Save_def mongoStore_delete_def SetToken_def Let_def
        split: option.splits)

lemma mongoStore_save_trace:
  "mongoStore_save E m g tr = (err, tr1) \<Longrightarrow>
     tr1 = tr \<or> (\<exists>doc. tr1 = tr @ [CallUpsertId (database m) (collection m)
                                      (ObjectIdHex E (ID g)) doc])"
  by (auto simp: mongoStore_save_def Let_def split: if_splits sum.splits)

lemma mongoStore_Save_fresh_id:
  assumes "0 \<le> gMaxAge (SOptions g)" and "ID g = []"
    and "mongoStore_Save E m r w g tr = (err, w1, g1, tr1)"
  shows "g1 = g\<lparr>ID := NewObjectId_Hex E\<rparr>
       \<and> (tr1 = tr \<or> (\<exists>doc. tr1 = tr @ [CallUpsertId (database m) (collection m)
                                   (ObjectIdHex E (NewObjectId_Hex E)) doc]))"
proof -
  let ?g1 = "g\<lparr>ID := NewObjectId_Hex E\<rparr>"
  obtain e trs where s: "mongoStore_save E m ?g1 tr = (e, trs)"
    by (cases "mongoStore_save E m ?g1 tr") auto
  from assms s have "g1 = ?g1 \<and> tr1 = trs"
    by (auto simp: mongoStore_Save_def Let_def split: option.splits sum.splits)
  with mongoStore_save_trace[OF s] show ?thesis by simp
qed

text \<open>
  C4, as the code has it. For every session whose \<open>MaxAge\<close> is negative, \<open>Save\<close> of
  mongoStore makes no upsert and assigns no new id. When the session's id is not an
  object-id hex it returns \<open>ErrInvalidId\<close>, with no call to the database and no cookie.
  Otherwise it removes the document by the session's id; when the driver reports an error,
  \<open>Save\<close> returns it and sets no cookie; when the removal succeeds, it sets the cookie to
  the empty value. When \<open>MaxAge\<close> is not negative and the id is empty, \<open>Save\<close> first
  assigns a fresh object-id hex, and the upsert, if it comes to one, is under that id.
\<close>

theorem mongoStore_Save_delete_or_fresh_id:
  "(gMaxAge (SOptions g) < 0 \<longrightarrow>
      mongoStore_Save E m r w g tr =
        (if \<not> IsObjectIdHex E (ID g) then (Some ErrInvalidId, w, g, tr)
         else case RemoveId (handle m) (database m) (collection m) (ObjectIdHex E (ID g)) of
             Some e \<Rightarrow>
               (Some e, w, g,
                tr @ [CallRemoveId (database m) (collection m) (ObjectIdHex E (ID g))])
           | None \<Rightarrow>
               (None,
                w @ [\<lparr>cookieName = Name g, cookieValue = [], cookieOptions = SOptions g\<rparr>],
                g,
                tr @ [CallRemoveId (database m) (collection m) (ObjectIdHex E (ID g))])))
   \<and> (0 \<le> gMaxAge (SOptions g) \<and> ID g = []
        \<and> mongoStore_Save E m r w g tr = (err, w1, g1, tr1) \<longrightarrow>
      g1 = g\<lparr>ID := NewObjectId_Hex E\<rparr>
      \<and> (tr1 = tr \<or> (\<exists>doc. tr1 = tr @ [CallUpsertId (database m) (collection m)
                                  (ObjectIdHex E (NewObjectId_Hex E)) doc])))"
  using mongoStore_Save_when_negative [of g E m r w tr]
    mongoStore_Save_fresh_id [of g E m r w tr err w1 g1 tr1]
  by blast

theorem mongoStore_Save_delete_or_fresh_id_witness:
  "gMaxAge (SOptions (example_dbSession\<lparr>SOptions := example_options\<lparr>gMaxAge := - 1\<rparr>\<rparr>)) < 0
   \<and> mongoStore_Save example_env example_mongoStore example_request []
        (example_dbSession\<lparr>SOptions := example_options\<lparr>gMaxAge := - 1\<rparr>\<rparr>) []
      = (None,
         [\<lparr>cookieName = ''my_session'', cookieValue = [],
           cookieOptions = example_options\<lparr>gMaxAge := - 1\<rparr>\<rparr>],
         example_dbSession\<lparr>SOptions := example_options\<lparr>gMaxAge := - 1\<rparr>\<rparr>,
         [CallRemoveId ''app'' ''sessions'' ''507f1f77bcf86cd799439011''])"
proof -
  have h: "gMaxAge (SOptions (example_dbSession
             \<lparr>SOptions := example_options\<lparr>gMaxAge := - 1\<rparr>\<rparr>)) < 0"
    by simp
  from h mongoStore_Save_delete_or_fresh_id
      [of "example_dbSession\<lparr>SOptions := example_options\<lparr>gMaxAge := - 1\<rparr>\<rparr>"
          example_env example_mongoStore example_request "[]" "[]", THEN conjunct1]
  show ?thesis
    by (simp add: example_env_def example_mongoStore_def example_dbSession_def
          example_driver_def)
qed

text \<open>
  The claim as the specification words it fails on a session that was never stored: its id
  is empty, \<open>MaxAge\<close> is negative, and \<open>Save\<close> returns \<open>ErrInvalidId\<close> without removing
  a document and without setting the cookie.
\<close>

theorem mongoStore_Save_negative_counterexample:
  "gMaxAge (SOptions expired_new_dbSession) < 0
   \<and> mongoStore_Save example_env example_mongoStore example_request []
        expired_new_dbSession []
      = (Some ErrInvalidId, [], expired_new_dbSession, [])"
  by (simp add: mongoStore_Save_def mongoStore_delete_def expired_new_dbSession_def
        example_env_def)

lemma mongoStore_Save_error_no_cookie:
  "fst (mongoStore_Save E m r w g tr) \<noteq> None \<Longrightarrow>
     fst (snd (mongoStore_Save E m r w g tr)) = w"
  by (cases "ID g = []")
     (auto simp: mongoStore_Save_def Let_def split: if_splits option.splits sum.splits
        prod.splits)

lemma mongoStore_Save_error_nonneg:
  assumes "0 \<le> gMaxAge (SOptions g)"
  shows "fst (mongoStore_Save E m r w g tr) =
     (case fst (mongoStore_save E m
                  (if ID g = [] then g\<lparr>ID := NewObjectId_Hex E\<rparr> else g) tr) of
        Some e \<Rightarrow> Some e
      | None \<Rightarrow>
          (case EncodeMulti_ID (Codecs m) (Name g)
                  (if ID g = [] then NewObjectId_Hex E else ID g) of
             Inl e \<Rightarrow> Some e
           | Inr encoded \<Rightarrow> None))"
  using assms
  by (cases "ID g = []")
     (auto simp: mongoStore_Save_def Let_def split: option.splits sum.splits prod.splits)

lemma mongoStore_Save_error_neg:
  "gMaxAge (SOptions g) < 0 \<Longrightarrow>
     fst (mongoStore_Save E m r w g tr) = fst (mongoStore_delete E m g tr)"
  by (auto simp: mongoStore_Save_def split: option.splits prod.splits)

lemma mongoStore_save_error:
  "IsObjectIdHex E (ID g) \<Longrightarrow> modified_of E g = Inr t \<Longrightarrow>
     fst (mongoStore_save E m g tr) =
       (case EncodeMulti_Values (Codecs m) (Name g) (Values g) of
          Inl e \<Rightarrow> Some e
        | Inr enc \<Rightarrow>
            UpsertId (handle m) (database m) (collection m) (ObjectIdHex E (ID g))
              \<lparr>docID = [], Data = enc, Modified = t\<rparr>)"
  by (simp add: mongoStore_save_def Let_def split: sum.splits)

lemma mongoStore_delete_error:
  "IsObjectIdHex E (ID g) \<Longrightarrow>
     fst (mongoStore_delete E m g tr) =
       RemoveId (handle m) (database m) (collection m) (ObjectIdHex E (ID g))"
  by (simp add: mongoStore_delete_def Let_def)

text \<open>
  C5. Whenever \<open>Save\<close> of mongoStore returns an error, the response is as it was: no
  cookie is set. The error is the error of the step that failed, unchanged. With a negative
  \<open>MaxAge\<close> it is the error of \<open>delete\<close>, which for a valid id is the driver's error of
  \<open>RemoveId\<close>. Otherwise it is the error of \<open>save\<close> (for a valid id and a usable
  \<open>"modified"\<close>: the codec's error of encoding the values, else the driver's error of
  \<open>UpsertId\<close>) or, when \<open>save\<close> succeeded, the codec's error of encoding the id. So a
  cookie is set only when every step before it succeeded.
\<close>

theorem mongoStore_Save_propagates_errors:
  "(fst (mongoStore_Save E m r w g tr) \<noteq> None \<longrightarrow>
      fst (snd (mongoStore_Save E m r w g tr)) = w)
   \<and> (gMaxAge (SOptions g) < 0 \<longrightarrow>
      fst (mongoStore_Save E m r w g tr) = fst (mongoStore_delete E m g tr))
   \<and> (0 \<le> gMaxAge (SOptions g) \<longrightarrow>
      fst (mongoStore_Save E m r w g tr) =
        (case fst (mongoStore_save E m
                     (if ID g = [] then g\<lparr>ID := NewObjectId_Hex E\<rparr> else g) tr) of
           Some e \<Rightarrow> Some e
         | None \<Rightarrow>
             (case EncodeMulti_ID (Codecs m) (Name g)
                     (if ID g = [] then NewObjectId_Hex E else ID g) of
                Inl e \<Rightarrow> Some e
              | Inr encoded \<Rightarrow> None)))
   \<and> (IsObjectIdHex E (ID g) \<longrightarrow>
      fst (mongoStore_delete E m g tr) =
        RemoveId (handle m) (database m) (collection m) (ObjectIdHex E (ID g)))
   \<and> (IsObjectIdHex E (ID g) \<and> modified_of E g = Inr t \<longrightarrow>
      fst (mongoStore_save E m g tr) =
        (case EncodeMulti_Values (Codecs m) (Name g) (Values g) of
           Inl e \<Rightarrow> Some e
         | Inr enc \<Rightarrow>
             UpsertId (handle m) (database m) (collection m) (ObjectIdHex E (ID g))
               \<lparr>docID = [], Data = enc, Modified = t\<rparr>))"
  using mongoStore_Save_error_no_cookie [of E m r w g tr]
    mongoStore_Save_error_neg [of g E m r w tr]
    mongoStore_Save_error_nonneg [of g E m r w tr]
    mongoStore_delete_error [of E g m tr]
    mongoStore_save_error [of E g t m tr]
  by blast

lemma failing_mongoStore_Save:
  "fst (mongoStore_Save example_env failing_mongoStore example_request [] example_dbSession [])
     = Some (LibError ''connection refused'')"
  by (simp add: mongoStore_Save_def mongoStore_save_def modified_of_def
        example_env_def failing_mongoStore_def example_mongoStore_def example_dbSession_def
        example_codecs_def failing_driver_def example_options_def)

theorem mongoStore_Save_propagates_errors_witness:
  "fst (mongoStore_Save example_env failing_mongoStore example_request [] example_dbSession [])
     = Some (LibError ''connection refused'')
   \<and> fst (snd (mongoStore_Save example_env failing_mongoStore example_request []
                 example_dbSession [])) = []"
proof -
  have h: "fst (mongoStore_Save example_env failing_mongoStore example_request []
                  example_dbSession []) \<noteq> None"
    using failing_mongoStore_Save by simp
  from h failing_mongoStore_Save
    mongoStore_Save_propagates_errors
      [of example_env failing_mongoStore example_request "[]" example_dbSession "[]",
       THEN conjunct1]
  show ?thesis by blast
qed

section \<open>The wrapper through one request\<close>

lemma saved_append: "saved (es @ es') = saved es @ saved es'"
  by (induction es rule: saved.induct) simp_all

lemma check_events:
  "saved (events (check e s)) = saved (events s)"
  "count_list (events (check e s)) StoreGet = count_list (events s) StoreGet"
  by (simp_all add: check_def saved_append split: option.splits)

lemma Session_events:
  assumes "session_Session s = (go, s1)"
  shows "saved (events s1) = saved (events s)"
    and "count_list (events s1) StoreGet =
           count_list (events s) StoreGet + (if session s = None then 1 else 0)"
  using assms
  by (cases "session s";
      auto simp: session_Session_def check_events saved_append split: prod.splits)+

lemma Session_written_update:
  "session_Session (s\<lparr>written := b\<rparr>) =
     (fst (session_Session s), (snd (session_Session s))\<lparr>written := b\<rparr>)"
  by (cases "session s")
     (auto simp: session_Session_def check_def Let_def split: prod.splits option.splits)

lemma unit_of_snd [simp]: "snd (unit_of p) = snd p"
  by (cases p rule: unit_of.cases) simp_all

lemma unit_of_fst [simp]: "(fst (unit_of p) = Returned ()) = (fst p \<noteq> Panicked)"
  by (cases p rule: unit_of.cases) simp_all

lemma unit_of_Panicked [simp]: "(fst (unit_of p) = Panicked) = (fst p = Panicked)"
  by (cases p rule: unit_of.cases) simp_all

lemmas call_defs =
  session_Get_def session_Set_def session_Delete_def session_AddFlash_def
  session_Flashes_def session_Options_def Session_written_update

text \<open>
  What one call does to the wrapper, read off the session that \<open>Session()\<close> gives it.
\<close>

lemma do_call_nil:
  assumes "session_Session s = (None, s1)"
  shows "fst (do_call G c s) = Panicked"
    and "events (snd (do_call G c s)) = events s1"
    and "written s \<Longrightarrow> written (snd (do_call G c s))"
    and "store (snd (do_call G c s)) = store s"
    and "request (snd (do_call G c s)) = request s"
    and "name (snd (do_call G c s)) = name s"
    and "written (snd (do_call G c s)) = (written s \<or> sets_written G c s)"
  using assms Session_post[OF assms]
  by (cases c; simp add: call_defs session_Clear_def)+

lemma Set_some:
  assumes "session_Session s = (Some g, s1)"
  shows "session_Set key val s =
     (case key of
        Unhashable \<Rightarrow> (Panicked, s1)
      | Hashable k \<Rightarrow>
          (Returned (),
           s1\<lparr>session := Some (g\<lparr>Values := store_key k val (Values g)\<rparr>), written := True\<rparr>))"
  using assms by (cases key) (simp_all add: session_Set_def)

lemma Delete_some:
  assumes "session_Session s = (Some g, s1)"
  shows "session_Delete key s =
     (case key of
        Unhashable \<Rightarrow> (Panicked, s1)
      | Hashable k \<Rightarrow>
          (Returned (),
           s1\<lparr>session := Some (g\<lparr>Values := remove_key k (Values g)\<rparr>), written := True\<rparr>))"
  using assms by (cases key) (simp_all add: session_Delete_def)

lemma Get_some:
  assumes "session_Session s = (Some g, s1)"
  shows "session_Get key s = (map_index (Values g) key, s1)"
  using assms by (simp add: session_Get_def)

lemma do_call_some:
  assumes "session_Session s = (Some g, s1)"
  shows "events (snd (do_call G c s)) = events s1"
    and "session (snd (do_call G c s)) \<noteq> None"
    and "written s \<Longrightarrow> written (snd (do_call G c s))"
    and "fst (do_call G c s) = Returned () \<Longrightarrow>
           written (snd (do_call G c s)) = (written s \<or> marks c s)"
    and "store (snd (do_call G c s)) = store s"
    and "request (snd (do_call G c s)) = request s"
    and "name (snd (do_call G c s)) = name s"
    and "written (snd (do_call G c s)) = (written s \<or> sets_written G c s)"
  using assms Session_post[OF assms] Clear_spec[OF assms]
  by (cases c;
      auto simp: Get_some[OF assms] Set_some[OF assms] Delete_some[OF assms]
        session_AddFlash_def session_Flashes_def session_Options_def Session_written_update
        split: prod.splits outcome.splits keyarg.splits)+

lemma do_call_props:
  "events (snd (do_call G c s)) = events (snd (session_Session s))"
  "store (snd (do_call G c s)) = store s"
  "request (snd (do_call G c s)) = request s"
  "name (snd (do_call G c s)) = name s"
  "fst (do_call G c s) = Returned () \<Longrightarrow> session (snd (do_call G c s)) \<noteq> None"
  "written s \<Longrightarrow> written (snd (do_call G c s))"
  "fst (do_call G c s) = Returned () \<Longrightarrow>
     written (snd (do_call G c s)) = (written s \<or> marks c s)"
  "written (snd (do_call G c s)) = (written s \<or> sets_written G c s)"
  "session s \<noteq> None \<Longrightarrow> session (snd (do_call G c s)) \<noteq> None"
  "fst (Get (store s) (request s) (name s)) \<noteq> None \<Longrightarrow> session (snd (do_call G c s)) \<noteq> None"
proof -
  obtain go s1 where ss: "session_Session s = (go, s1)"
    by (cases "session_Session s") auto
  show "events (snd (do_call G c s)) = events (snd (session_Session s))"
    using ss do_call_nil(2)[of s s1 G c] do_call_some(1)[of s _ s1 G c] by (cases go) auto
  show "store (snd (do_call G c s)) = store s"
    using ss do_call_nil(4)[of s s1 G c] do_call_some(5)[of s _ s1 G c] by (cases go) auto
  show "request (snd (do_call G c s)) = request s"
    using ss do_call_nil(5)[of s s1 G c] do_call_some(6)[of s _ s1 G c] by (cases go) auto
  show "name (snd (do_call G c s)) = name s"
    using ss do_call_nil(6)[of s s1 G c] do_call_some(7)[of s _ s1 G c] by (cases go) auto
  show "session (snd (do_call G c s)) \<noteq> None" if "fst (do_call G c s) = Returned ()"
    using that ss do_call_nil(1)[of s s1 G c] do_call_some(2)[of s _ s1 G c]
    by (cases go) auto
  show "written (snd (do_call G c s))" if "written s"
    using that ss do_call_nil(3)[of s s1 G c] do_call_some(3)[of s _ s1 G c]
    by (cases go) auto
  show "written (snd (do_call G c s)) = (written s \<or> marks c s)"
    if "fst (do_call G c s) = Returned ()"
    using that ss do_call_nil(1)[of s s1 G c] do_call_some(4)[of s _ s1 G c]
    by (cases go) auto
  show "written (snd (do_call G c s)) = (written s \<or> sets_written G c s)"
    using ss do_call_nil(7)[of s s1 G c] do_call_some(8)[of s _ s1 G c]
    by (cases go) auto
  show "session (snd (do_call G c s)) \<noteq> None" if "session s \<noteq> None"
  proof -
    from that obtain g where "session s = Some g" by auto
    from Session_cached[OF this] do_call_some(2)[of s g s G c] show ?thesis by simp
  qed
  show "session (snd (do_call G c s)) \<noteq> None"
    if "fst (Get (store s) (request s) (name s)) \<noteq> None"
  proof (cases go)
    case None
    with ss that have "session s \<noteq> None"
      by (cases "session s") (auto simp: session_Session_def split: prod.splits)
    then obtain g where "session s = Some g" by auto
    from Session_cached[OF this] do_call_some(2)[of s g s G c] show ?thesis by simp
  next
    case (Some g)
    with ss do_call_some(2)[of s g s1 G c] show ?thesis by simp
  qed
qed

lemma do_call_events:
  "saved (events (snd (do_call G c s))) = saved (events s)"
  "count_list (events (snd (do_call G c s))) StoreGet =
     count_list (events s) StoreGet + (if session s = None then 1 else 0)"
proof -
  obtain go s1 where ss: "session_Session s = (go, s1)"
    by (cases "session_Session s") auto
  from Session_events[OF ss] ss
  show "saved (events (snd (do_call G c s))) = saved (events s)"
    and "count_list (events (snd (do_call G c s))) StoreGet =
     count_list (events s) StoreGet + (if session s = None then 1 else 0)"
    by (simp_all add: do_call_props(1))
qed

lemma marks_by_name: "marks c s \<Longrightarrow> mutation_by_name c"
  by (cases c) simp_all


lemma panicked_fields [simp]:
  "session (panicked out s) = session s" "written (panicked out s) = written s"
  "store (panicked out s) = store s" "request (panicked out s) = request s"
  "name (panicked out s) = name s"
  "saved (events (panicked out s)) = saved (events s)"
  "count_list (events (panicked out s)) StoreGet = count_list (events s) StoreGet"
  by (simp_all add: panicked_def saved_append split: outcome.splits)

text \<open>What one run of the hook does to the wrapper and to the response.\<close>

lemma Before_props:
  "store (fst (snd (Before s w))) = store s"
  "request (fst (snd (Before s w))) = request s"
  "name (fst (snd (Before s w))) = name s"
  "written (fst (snd (Before s w))) = written s"
  "session s \<noteq> None \<Longrightarrow> session (fst (snd (Before s w))) \<noteq> None"
  "saved (events (fst (snd (Before s w)))) =
     saved (events s) @ (if session_Written s
                         then (case fst (session_Session s) of None \<Rightarrow> [] | Some g \<Rightarrow> [g])
                         else [])"
  "count_list (events (fst (snd (Before s w)))) StoreGet =
     count_list (events s) StoreGet + (if session_Written s \<and> session s = None then 1 else 0)"
  "saved (events (fst (snd (Before s w)))) = saved (events s) \<Longrightarrow> snd (snd (Before s w)) = w"
proof -
  obtain go s1 where ss: "session_Session s = (go, s1)"
    by (cases "session_Session s") auto
  note P = Session_post[OF ss] Session_events[OF ss]
  show "store (fst (snd (Before s w))) = store s"
    using ss P by (cases go) (auto simp: Before_def split: prod.splits)
  show "request (fst (snd (Before s w))) = request s"
    using ss P by (cases go) (auto simp: Before_def split: prod.splits)
  show "name (fst (snd (Before s w))) = name s"
    using ss P by (cases go) (auto simp: Before_def split: prod.splits)
  show "written (fst (snd (Before s w))) = written s"
    using ss P by (cases go) (auto simp: Before_def split: prod.splits)
  show "session (fst (snd (Before s w))) \<noteq> None" if "session s \<noteq> None"
    using that ss P
    by (cases go) (auto simp: Before_def session_Session_def split: prod.splits)
  show "saved (events (fst (snd (Before s w)))) =
     saved (events s) @ (if session_Written s
                         then (case fst (session_Session s) of None \<Rightarrow> [] | Some g \<Rightarrow> [g])
                         else [])"
    using ss P
    by (cases go) (auto simp: Before_def check_events saved_append split: prod.splits)
  show "count_list (events (fst (snd (Before s w)))) StoreGet =
     count_list (events s) StoreGet + (if session_Written s \<and> session s = None then 1 else 0)"
    using ss P
    by (cases go)
       (auto simp: Before_def session_Written_def check_events split: prod.splits)
  show "snd (snd (Before s w)) = w"
    if "saved (events (fst (snd (Before s w)))) = saved (events s)"
    using that ss P
    by (cases go) (auto simp: Before_def check_events saved_append split: prod.splits)
qed

text \<open>The steps of a request, one after the other.\<close>

lemma steps_append:
  "steps G (a @ b) s rw = steps G b (fst (steps G a s rw)) (snd (steps G a s rw))"
proof (induction a arbitrary: s rw)
  case Nil
  show ?case by simp
next
  case (Cons x a)
  show ?case by (cases x) (simp_all add: Cons split: prod.splits)
qed

lemma steps_Call:
  "steps G [Call c] s rw = (panicked (fst (do_call G c s)) (snd (do_call G c s)), rw)"
  by (simp split: prod.splits)

lemma steps_WriteHeader:
  "steps G [WriteHeader] s rw =
     (panicked (fst (Before s rw)) (fst (snd (Before s rw))), snd (snd (Before s rw)))"
  by (simp split: prod.splits)

lemma steps_snoc_Call:
  "steps G (sts @ [Call c]) s rw =
     (panicked (fst (do_call G c (fst (steps G sts s rw))))
        (snd (do_call G c (fst (steps G sts s rw)))),
      snd (steps G sts s rw))"
  by (simp only: steps_append steps_Call)

lemma steps_snoc_WriteHeader:
  "steps G (sts @ [WriteHeader]) s rw =
     (panicked (fst (Before (fst (steps G sts s rw)) (snd (steps G sts s rw))))
        (fst (snd (Before (fst (steps G sts s rw)) (snd (steps G sts s rw))))),
      snd (snd (Before (fst (steps G sts s rw)) (snd (steps G sts s rw)))))"
  by (simp only: steps_append steps_WriteHeader)


lemma steps_fields:
  "store (fst (steps G sts s rw)) = store s
   \<and> request (fst (steps G sts s rw)) = request s
   \<and> name (fst (steps G sts s rw)) = name s
   \<and> (session s \<noteq> None \<longrightarrow> session (fst (steps G sts s rw)) \<noteq> None)"
proof (induction sts rule: rev_induct)
  case Nil
  show ?case by simp
next
  case (snoc x sts)
  show ?case
  proof (cases x)
    case (Call c)
    with snoc do_call_props(2,3,4,9)[where G=G and c=c and s="fst (steps G sts s rw)"]
    show ?thesis by (simp add: steps_snoc_Call)
  next
    case WriteHeader
    with snoc Before_props(1,2,3,5)[of "fst (steps G sts s rw)" "snd (steps G sts s rw)"]
    show ?thesis by (simp add: steps_snoc_WriteHeader)
  qed
qed



lemma steps_without_calls:
  assumes "\<not> written s" and "\<forall>c. Call c \<notin> set sts"
  shows "steps G sts s rw = (s, rw)"
  using assms
proof (induction sts rule: rev_induct)
  case Nil
  show ?case by simp
next
  case (snoc x sts)
  then have e: "steps G sts s rw = (s, rw)" by simp
  from snoc.prems(2) have "x = WriteHeader" by (cases x) auto
  with e snoc.prems(1) show ?case
    by (simp add: steps_snoc_WriteHeader Before_def session_Written_def panicked_def)
qed

text \<open>
  How often the store was asked during the steps of a request, for a store that has a
  session to give.
\<close>

lemma steps_count_with_session:
  assumes "fst (Get (store s) (request s) (name s)) \<noteq> None"
    and "session s = None \<longrightarrow> \<not> written s"
  shows "count_list (events (fst (steps G sts s rw))) StoreGet =
           count_list (events s) StoreGet
             + (if session s = None \<and> (\<exists>c. Call c \<in> set sts) then 1 else 0)
       \<and> (session (fst (steps G sts s rw)) = None)
           = (session s = None \<and> \<not> (\<exists>c. Call c \<in> set sts))
       \<and> (session (fst (steps G sts s rw)) = None \<longrightarrow> \<not> written (fst (steps G sts s rw)))"
proof (induction sts rule: rev_induct)
  case Nil
  from assms(2) show ?case by simp
next
  case (snoc x sts)
  let ?s1 = "fst (steps G sts s rw)" and ?w1 = "snd (steps G sts s rw)"
  from steps_fields[of G sts s rw] assms(1)
  have g: "fst (Get (store ?s1) (request ?s1) (name ?s1)) \<noteq> None" by simp
  from snoc have c1: "count_list (events ?s1) StoreGet =
           count_list (events s) StoreGet
             + (if session s = None \<and> (\<exists>c. Call c \<in> set sts) then 1 else 0)"
    and i1: "(session ?s1 = None) = (session s = None \<and> \<not> (\<exists>c. Call c \<in> set sts))"
    and w1: "session ?s1 = None \<longrightarrow> \<not> written ?s1"
    by simp_all
  show ?case
  proof (cases x)
    case (Call c)
    let ?s2 = "snd (do_call G c ?s1)"
    from do_call_props(10)[OF g, of G c] have n: "session ?s2 \<noteq> None" .
    have e: "fst (steps G (sts @ [x]) s rw) = panicked (fst (do_call G c ?s1)) ?s2"
      using Call by (simp add: steps_snoc_Call)
    have c2: "count_list (events ?s2) StoreGet =
        count_list (events ?s1) StoreGet + (if session ?s1 = None then 1 else 0)"
      by (rule do_call_events(2))
    have x: "\<exists>c. Call c \<in> set (sts @ [x])" using Call by auto
    show ?thesis
    proof (cases "session ?s1 = None")
      case True
      with i1 have "session s = None" "\<not> (\<exists>c. Call c \<in> set sts)" by simp_all
      with c1 c2 True n x show ?thesis unfolding e by auto
    next
      case False
      with i1 have "session s \<noteq> None \<or> (\<exists>c. Call c \<in> set sts)" by simp
      with c1 c2 False n x show ?thesis unfolding e by auto
    qed
  next
    case WriteHeader
    have x: "(\<exists>c. Call c \<in> set (sts @ [x])) = (\<exists>c. Call c \<in> set sts)"
      using WriteHeader by auto
    show ?thesis
    proof (cases "session ?s1")
      case None
      with w1 have nw: "\<not> written ?s1" by simp
      then have "Before ?s1 ?w1 = (Returned (), ?s1, ?w1)"
        by (simp add: Before_def session_Written_def)
      then have "fst (steps G (sts @ [x]) s rw) = ?s1"
        using WriteHeader by (simp add: steps_snoc_WriteHeader panicked_def)
      with c1 i1 w1 show ?thesis unfolding x by simp
    next
      case (Some g)
      then have ne: "session ?s1 \<noteq> None" by simp
      let ?s2 = "fst (snd (Before ?s1 ?w1))"
      have e: "fst (steps G (sts @ [x]) s rw) = panicked (fst (Before ?s1 ?w1)) ?s2"
        using WriteHeader by (simp add: steps_snoc_WriteHeader)
      from Before_props(5)[OF ne, of ?w1] have n2: "session ?s2 \<noteq> None" .
      from Before_props(7)[of ?s1 ?w1] ne
      have c2: "count_list (events ?s2) StoreGet = count_list (events ?s1) StoreGet" by simp
      from c1 c2 i1 ne n2 show ?thesis unfolding e x by auto
    qed
  qed
qed

lemma Sessions_negroni:
  "Sessions G nm st (NegroniResponseWriter rw) r sts =
     steps G sts (newSession nm (Request.truncate r) st) rw"
  by (simp add: Sessions_def GetSession_def Let_def)

lemma Sessions_plain:
  "Sessions G nm st (PlainResponseWriter w) r sts =
     (panicked Panicked (newSession nm (Request.truncate r) st), w)"
  by (simp add: Sessions_def Let_def)

lemma newSession_fields [simp]:
  "session (newSession nm rq st) = None" "written (newSession nm rq st) = False"
  "events (newSession nm rq st) = []" "store (newSession nm rq st) = st"
  "request (newSession nm rq st) = rq" "name (newSession nm rq st) = nm"
  by (simp_all add: newSession_def)

section \<open>Saving in the Before hook\<close>





section \<open>Loading the session lazily\<close>

text \<open>
  C6, as the code has it. A call on the session asks the store exactly when no session is
  cached, and so does a run of the Before hook that finds \<open>written\<close> set; with a session
  cached, \<open>Session()\<close> returns it and leaves the wrapper as it is. When the store's
  \<open>Get\<close> returns a session, it is called at most once in the request: by the first call
  on the session, whatever the calls and writes that follow. A request that makes no call
  on the session never calls the store's \<open>Get\<close>. A nil session is not cached, so a store
  that returns nil is asked again.
\<close>

theorem store_Get_called_at_most_once:
  "count_list (events (snd (do_call G c s))) StoreGet
     = count_list (events s) StoreGet + (if session s = None then 1 else 0)
   \<and> count_list (events (fst (snd (Before s w)))) StoreGet
     = count_list (events s) StoreGet
         + (if session_Written s \<and> session s = None then 1 else 0)
   \<and> (session s \<noteq> None \<longrightarrow> session_Session s = (session s, s))
   \<and> (fst (Get st (Request.truncate r) nm) \<noteq> None \<longrightarrow>
        count_list (events (fst (Sessions G nm st (NegroniResponseWriter rw) r sts))) StoreGet
          = (if \<exists>c. Call c \<in> set sts then 1 else 0)
        \<and> count_list (events (fst (Sessions G nm st res r sts))) StoreGet \<le> 1)
   \<and> ((\<forall>c. Call c \<notin> set sts) \<longrightarrow>
        count_list (events (fst (Sessions G nm st res r sts))) StoreGet = 0)"
proof -
  let ?s0 = "newSession nm (Request.truncate r) st"
  have 3: "session s \<noteq> None \<longrightarrow> session_Session s = (session s, s)"
    by (auto simp: Session_cached)
  have 4: "count_list (events (fst (Sessions G nm st (NegroniResponseWriter rw') r sts)))
             StoreGet = (if \<exists>c. Call c \<in> set sts then 1 else 0)"
    if g: "fst (Get st (Request.truncate r) nm) \<noteq> None" for rw'
  proof -
    from g have a: "fst (Get (store ?s0) (request ?s0) (name ?s0)) \<noteq> None" by simp
    have b: "session ?s0 = None \<longrightarrow> \<not> written ?s0" by simp
    from steps_count_with_session[OF a b, of G sts rw'] show ?thesis
      unfolding Sessions_negroni by simp
  qed
  have le1: "count_list (events (fst (Sessions G nm st res r sts))) StoreGet \<le> 1"
    if g: "fst (Get st (Request.truncate r) nm) \<noteq> None"
  proof (cases res)
    case (PlainResponseWriter w')
    then show ?thesis by (simp add: Sessions_plain panicked_def)
  next
    case (NegroniResponseWriter rw')
    with 4[OF g, of rw'] show ?thesis by simp
  qed
  have 5: "count_list (events (fst (Sessions G nm st res r sts))) StoreGet = 0"
    if "\<forall>c. Call c \<notin> set sts"
  proof (cases res)
    case (PlainResponseWriter w')
    then show ?thesis by (simp add: Sessions_plain panicked_def)
  next
    case (NegroniResponseWriter rw')
    have "\<not> written ?s0" by simp
    from steps_without_calls[OF this that, of G rw'] show ?thesis
      unfolding NegroniResponseWriter Sessions_negroni by simp
  qed
  from do_call_events(2)[where G=G and c=c and s=s] Before_props(7)[of s w] 3 4 le1 5
  show ?thesis by blast
qed

lemma example_store_has_session:
  "fst (Get example_store (Request.truncate example_ctxRequest) ''my_session'') \<noteq> None"
  by (simp add: example_store_def)

theorem store_Get_called_at_most_once_witness:
  "fst (Get example_store (Request.truncate example_ctxRequest) ''my_session'') \<noteq> None
   \<and> count_list (events (fst (Sessions example_gorilla ''my_session'' example_store
      (NegroniResponseWriter []) example_ctxRequest
      [Call (CallGet (Hashable (Key ''hello''))), WriteHeader,
       Call (CallSet (Hashable (Key ''hello'')) (Some ''world'')), Call (CallFlashes []),
       WriteHeader]))) StoreGet = 1"
proof -
  have c: "\<exists>c. Call c \<in> set [Call (CallGet (Hashable (Key ''hello''))), WriteHeader,
       Call (CallSet (Hashable (Key ''hello'')) (Some ''world'')),
       Call (CallFlashes [] :: (string, string) call), WriteHeader]"
    by auto
  from example_store_has_session
    store_Get_called_at_most_once [where st = example_store and r = example_ctxRequest
      and nm = "''my_session''" and G = example_gorilla and rw = "[]"
      and sts = "[Call (CallGet (Hashable (Key ''hello''))), WriteHeader,
       Call (CallSet (Hashable (Key ''hello'')) (Some ''world'')), Call (CallFlashes []),
       WriteHeader]",
      THEN conjunct2, THEN conjunct2, THEN conjunct2, THEN conjunct1]
  have "count_list (events (fst (Sessions example_gorilla ''my_session'' example_store
      (NegroniResponseWriter []) example_ctxRequest
      [Call (CallGet (Hashable (Key ''hello''))), WriteHeader,
       Call (CallSet (Hashable (Key ''hello'')) (Some ''world'')), Call (CallFlashes []),
       WriteHeader]))) StoreGet
     = (if \<exists>c. Call c \<in> set [Call (CallGet (Hashable (Key ''hello''))), WriteHeader,
       Call (CallSet (Hashable (Key ''hello'')) (Some ''world'')),
       Call (CallFlashes [] :: (string, string) call), WriteHeader] then 1 else 0)"
    by blast
  with c example_store_has_session show ?thesis by (simp only: if_True simp_thms)
qed

text \<open>
  The claim as the specification words it fails when the store has no session to give:
  \<open>Flashes\<close> sets \<open>written\<close>, asks the store, gets nil and panics; the write of the
  status that follows the panic runs the hook, which asks the store a second time.
\<close>

theorem store_Get_called_twice_counterexample:
  "count_list (events (fst (Sessions example_gorilla ''my_session'' nil_store
      (NegroniResponseWriter []) example_ctxRequest
      [Call (CallFlashes []), WriteHeader]))) StoreGet = 2"
  by (simp add: Sessions_negroni newSession_def session_Flashes_def session_Session_def
        check_def nil_store_def Before_def session_Written_def panicked_def)

section \<open>Written\<close>

text \<open>
  C10, as the code has it. \<open>Written()\<close> is false when the request begins, and no call
  resets it. It is true after every \<open>Set\<close>, \<open>Delete\<close> and \<open>AddFlash\<close> that returns, and
  after every \<open>Flashes\<close>, which sets it before it looks at the session. After a \<open>Clear\<close>
  it is true if it was before or if the session held at least one value.
\<close>

theorem Written_set_and_never_reset:
  "\<not> session_Written (newSession nm rq st)
   \<and> (session_Written s \<longrightarrow> session_Written (snd (do_call G c s)))
   \<and> (fst (session_Set key val s) = Returned () \<longrightarrow>
        session_Written (snd (session_Set key val s)))
   \<and> (fst (session_Delete key s) = Returned () \<longrightarrow>
        session_Written (snd (session_Delete key s)))
   \<and> (fst (session_AddFlash G val vars s) = Returned () \<longrightarrow>
        session_Written (snd (session_AddFlash G val vars s)))
   \<and> session_Written (snd (session_Flashes G vars s))
   \<and> (fst (session_Clear s) = Returned () \<longrightarrow>
        session_Written (snd (session_Clear s))
          = (session_Written s
             \<or> (case fst (session_Session s) of None \<Rightarrow> False | Some g \<Rightarrow> Values g \<noteq> [])))"
proof -
  have 1: "\<not> session_Written (newSession nm rq st)"
    by (simp add: session_Written_def newSession_def)
  have 2: "session_Written s \<longrightarrow> session_Written (snd (do_call G c s))"
    using do_call_props(6)[where G=G and c=c and s=s] by (simp add: session_Written_def)
  have 3: "fst (session_Set key val s) = Returned () \<longrightarrow>
        session_Written (snd (session_Set key val s))"
    using do_call_props(7)[where G=G and c="CallSet key val" and s=s] by (simp add: session_Written_def)
  have 4: "fst (session_Delete key s) = Returned () \<longrightarrow>
        session_Written (snd (session_Delete key s))"
    using do_call_props(7)[where G=G and c="CallDelete key" and s=s] by (simp add: session_Written_def)
  have 5: "fst (session_AddFlash G val vars s) = Returned () \<longrightarrow>
        session_Written (snd (session_AddFlash G val vars s))"
    using do_call_props(7)[where G=G and c="CallAddFlash val vars" and s=s] by (simp add: session_Written_def)
  have 6: "session_Written (snd (session_Flashes G vars s))"
    by (cases "session_Session s")
       (auto simp: session_Written_def session_Flashes_def Session_written_update
          split: prod.splits option.splits)
  have 7: "fst (session_Clear s) = Returned () \<longrightarrow>
        session_Written (snd (session_Clear s))
          = (session_Written s
             \<or> (case fst (session_Session s) of None \<Rightarrow> False | Some g \<Rightarrow> Values g \<noteq> []))"
    using do_call_props(7)[where G=G and c=CallClear and s=s] by (simp add: session_Written_def)
  from 1 2 3 4 5 6 7 show ?thesis by blast
qed

lemma example_Delete_returns:
  "fst (session_Delete (Hashable (Key ''hello''))
          (newSession ''my_session'' (Request.truncate example_ctxRequest) example_store))
     = Returned ()"
  by (simp add: session_Delete_def session_Session_def newSession_def example_store_def
        check_def)

theorem Written_set_and_never_reset_witness:
  "fst (session_Delete (Hashable (Key ''hello''))
          (newSession ''my_session'' (Request.truncate example_ctxRequest) example_store))
     = Returned ()
   \<and> session_Written (snd (session_Delete (Hashable (Key ''hello''))
          (newSession ''my_session'' (Request.truncate example_ctxRequest) example_store)))"
  using example_Delete_returns
    Written_set_and_never_reset [where key = "Hashable (Key ''hello'')"
      and s = "newSession ''my_session'' (Request.truncate example_ctxRequest) example_store"]
  by blast

text \<open>
  The claim as the specification words it fails for \<open>Clear\<close>: after \<open>Clear\<close> on a session
  that holds no value, \<open>Written()\<close> is still false. It is also still false after a \<open>Set\<close>
  that panics because the store has no session to give.
\<close>

theorem Written_after_Clear_of_empty_session_counterexample:
  "fst (session_Clear
          (newSession ''my_session'' (Request.truncate example_ctxRequest) example_store))
     = Returned ()
   \<and> \<not> session_Written (snd (session_Clear
          (newSession ''my_session'' (Request.truncate example_ctxRequest) example_store)))
   \<and> fst (session_Set (Hashable (Key ''hello'')) (Some ''world'')
          (newSession ''my_session'' (Request.truncate example_ctxRequest) nil_store))
     = Panicked
   \<and> \<not> session_Written (snd (session_Set (Hashable (Key ''hello'')) (Some ''world'')
          (newSession ''my_session'' (Request.truncate example_ctxRequest) nil_store)))"
  by (simp add: session_Clear_def session_Set_def session_Session_def newSession_def
        example_store_def nil_store_def check_def session_Written_def)

end
